theory Spec2Isabelle
  imports Complex_Main "HOL-Library.Word"
begin

unbundle bit_operations_syntax

section \<open>C data model\<close>

text \<open>
  The library is modelled on the LP64 data model of its Linux x86_64 target:
  \<open>unsigned char\<close> is 8 bits, \<open>short\<close> 16, \<open>int\<close> and \<open>unsigned int\<close> 32,
  \<open>long\<close>, \<open>long long\<close>, their unsigned variants and \<open>size_t\<close> 64.  A signed
  variable holds the same bits as its unsigned counterpart and is read with \<open>sint\<close>.
  A buffer is the list of its bytes; an access outside a buffer, which is undefined
  in C, is an error value of the model, and so is a signed addition whose result
  leaves the range of its type.
\<close>

type_synonym byte = "8 word"

datatype error =
    Out_of_bounds_read
  | Out_of_bounds_write
  | Null_dereference
  | Invalid_access
  | Signed_overflow
  | Division_by_zero
  | Out_of_memory
  | Out_of_fuel
  | Does_not_terminate

section \<open>Primitive codec (cerializer.c)\<close>

text \<open>\<open>packi16\<close>, \<open>packi32\<close>, \<open>packi64\<close>: the bytes stored at \<open>buf[0]\<close>, \<open>buf[1]\<close>, ...\<close>

definition packi16 :: "32 word \<Rightarrow> byte list" where
  "packi16 i = [ucast (drop_bit 8 i), ucast i]"

definition packi32 :: "64 word \<Rightarrow> byte list" where
  "packi32 i = [ucast (drop_bit 24 i), ucast (drop_bit 16 i), ucast (drop_bit 8 i), ucast i]"

definition packi64 :: "64 word \<Rightarrow> byte list" where
  "packi64 i =
     [ucast (drop_bit 56 i), ucast (drop_bit 48 i), ucast (drop_bit 40 i), ucast (drop_bit 32 i),
      ucast (drop_bit 24 i), ucast (drop_bit 16 i), ucast (drop_bit 8 i), ucast i]"

text \<open>The unpack functions read \<open>buf[0]\<close> .. \<open>buf[n-1]\<close>; a shorter buffer is an
  out-of-bounds read.\<close>

fun unpacku16 :: "byte list \<Rightarrow> error + 32 word" where
  "unpacku16 (b0 # b1 # _) = Inr (push_bit 8 (ucast b0) OR ucast b1)"
| "unpacku16 _ = Inl Out_of_bounds_read"

fun unpacki16 :: "byte list \<Rightarrow> error + 32 word" where
  "unpacki16 (b0 # b1 # _) =
     (let i2 = push_bit 8 (ucast b0) OR ucast b1 :: 32 word
      in if i2 \<le> 0x7fff then Inr i2 else Inr (- 1 - (0xffff - i2)))"
| "unpacki16 _ = Inl Out_of_bounds_read"

fun unpacku32 :: "byte list \<Rightarrow> error + 64 word" where
  "unpacku32 (b0 # b1 # b2 # b3 # _) =
     Inr (push_bit 24 (ucast b0) OR push_bit 16 (ucast b1) OR push_bit 8 (ucast b2) OR ucast b3)"
| "unpacku32 _ = Inl Out_of_bounds_read"

fun unpacki32 :: "byte list \<Rightarrow> error + 64 word" where
  "unpacki32 (b0 # b1 # b2 # b3 # _) =
     (let i2 = push_bit 24 (ucast b0) OR push_bit 16 (ucast b1) OR push_bit 8 (ucast b2)
                 OR ucast b3 :: 64 word
      in if i2 \<le> 0x7fffffff then Inr i2 else Inr (- 1 - (0xffffffff - i2)))"
| "unpacki32 _ = Inl Out_of_bounds_read"

fun unpacku64 :: "byte list \<Rightarrow> error + 64 word" where
  "unpacku64 (b0 # b1 # b2 # b3 # b4 # b5 # b6 # b7 # _) =
     Inr (push_bit 56 (ucast b0) OR push_bit 48 (ucast b1) OR push_bit 40 (ucast b2)
          OR push_bit 32 (ucast b3) OR push_bit 24 (ucast b4) OR push_bit 16 (ucast b5)
          OR push_bit 8 (ucast b6) OR ucast b7)"
| "unpacku64 _ = Inl Out_of_bounds_read"

fun unpacki64 :: "byte list \<Rightarrow> error + 64 word" where
  "unpacki64 (b0 # b1 # b2 # b3 # b4 # b5 # b6 # b7 # _) =
     (let i2 = push_bit 56 (ucast b0) OR push_bit 48 (ucast b1) OR push_bit 40 (ucast b2)
                 OR push_bit 32 (ucast b3) OR push_bit 24 (ucast b4) OR push_bit 16 (ucast b5)
                 OR push_bit 8 (ucast b6) OR ucast b7 :: 64 word
      in if i2 \<le> 0x7fffffffffffffff then Inr i2 else Inr (- 1 - (0xffffffffffffffff - i2)))"
| "unpacki64 _ = Inl Out_of_bounds_read"


section \<open>Strings and keys\<close>

text \<open>
  A C string is the list of its characters before the terminator.  \<open>strlen\<close> is its
  length; \<open>strdup\<close> copies it.  A \<open>char *\<close> that may be \<open>NULL\<close> is a \<open>string option\<close>.
\<close>

definition byte_of_char :: "char \<Rightarrow> byte" where
  "byte_of_char c = of_char c"

definition char_of_byte :: "byte \<Rightarrow> char" where
  "char_of_byte b = char_of (unat b)"

text \<open>The string that starts at the first byte of a buffer: the bytes before the
  first zero byte.\<close>

definition c_string :: "byte list \<Rightarrow> string" where
  "c_string bs = map char_of_byte (takeWhile (\<lambda>b. b \<noteq> 0) bs)"

text \<open>\<open>test_string_equal\<close> (string_util.c): \<open>strcmp(l, r) == 0\<close>.\<close>

definition test_string_equal :: "string \<Rightarrow> string \<Rightarrow> bool" where
  "test_string_equal l r = (l = r)"

text \<open>
  A key is a pointer to a string object: the characters and the terminator, which is
  all that a string literal or a \<open>strdup\<close> copy holds.  The hash function and the
  default key comparison read \<open>*((size_t *) key)\<close>, the eight bytes at the key's
  address, least significant byte first on x86_64.  These bytes lie in the object when
  the key has seven characters or more, and then they are the same for every pointer
  to an equal string.  For a shorter key the read runs past the terminator and leaves
  the object, which is \<open>Out_of_bounds_read\<close>: what lies behind the terminator is not
  part of the key, so a caller's pointer and the \<open>strdup\<close> copy that
  \<open>dynmessage_put_field_and_value\<close> stores need not hash alike.
\<close>

definition key_word :: "string \<Rightarrow> error + 64 word" where
  "key_word k =
     (if length k < 7 then Inl Out_of_bounds_read
      else Inr (foldr (\<lambda>b acc. ucast b OR push_bit 8 acc) (take 8 (map byte_of_char k)) 0))"

definition default_hash_func :: "string \<Rightarrow> error + 64 word" where
  "default_hash_func k =
     (case key_word k of Inl e \<Rightarrow> Inl e
      | Inr a \<Rightarrow>
          let a = a - push_bit 6 a;
              a = a XOR drop_bit 17 a;
              a = a - push_bit 9 a;
              a = a XOR push_bit 4 a;
              a = a - push_bit 3 a;
              a = a XOR push_bit 10 a;
              a = a XOR drop_bit 15 a
          in Inr a)"

definition hashmap_default_key_equal :: "string \<Rightarrow> string \<Rightarrow> error + bool" where
  "hashmap_default_key_equal l r =
     (case key_word l of Inl e \<Rightarrow> Inl e
      | Inr a \<Rightarrow>
          case key_word r of Inl e \<Rightarrow> Inl e
          | Inr b \<Rightarrow> Inr (a - b = 0))"

section \<open>Hash map (hashmap.c)\<close>

text \<open>
  A \<open>slinkedlist\<close> is the list of its nodes' data, head first; a bucket of the table
  is \<open>NULL\<close> (\<open>None\<close>) or a list of entries.  A function pointer is the name of the
  function it points to.
\<close>

datatype key_equal_fn = Test_string_equal | Hashmap_default_key_equal

datatype hash_fn = Default_hash_func

fun call_key_equal :: "key_equal_fn \<Rightarrow> string \<Rightarrow> string \<Rightarrow> error + bool" where
  "call_key_equal Test_string_equal l r = Inr (test_string_equal l r)"
| "call_key_equal Hashmap_default_key_equal l r = hashmap_default_key_equal l r"

fun call_hash_func :: "hash_fn \<Rightarrow> string \<Rightarrow> error + 64 word" where
  "call_hash_func Default_hash_func k = default_hash_func k"

record 'v hashmap_entry =
  key :: string
  val :: 'v

record 'v hashmap =
  capacity :: nat
  size_m :: nat
  table :: "'v hashmap_entry list option list"
  key_equal :: key_equal_fn
  hash_func :: hash_fn

text \<open>\<open>hashmap_init\<close>, on a freshly allocated map, with a positive capacity.\<close>

definition hashmap_init :: "nat \<Rightarrow> key_equal_fn option \<Rightarrow> hash_fn option \<Rightarrow> 'v hashmap" where
  "hashmap_init cap ke hf =
     \<lparr>capacity = cap, size_m = 0, table = replicate cap None,
      key_equal = (case ke of Some f \<Rightarrow> f | None \<Rightarrow> Hashmap_default_key_equal),
      hash_func = (case hf of Some f \<Rightarrow> f | None \<Rightarrow> Default_hash_func)\<rparr>"

definition hashmap_empty :: "'v hashmap \<Rightarrow> bool" where
  "hashmap_empty m = (size_m m = 0)"

text \<open>\<open>hash_func(key) % cap\<close>, computed in \<open>size_t\<close>.\<close>

definition offset_of :: "hash_fn \<Rightarrow> string \<Rightarrow> nat \<Rightarrow> error + nat" where
  "offset_of hf k cap =
     (case call_hash_func hf k of Inl e \<Rightarrow> Inl e
      | Inr h \<Rightarrow> Inr (unat (h mod of_nat cap)))"

text \<open>The index \<open>map->hash_func(key) % map->capacity\<close> of a key's bucket in the table,
  and the bucket \<open>map->table[offset]\<close>.\<close>

definition offset_of_key :: "'v hashmap \<Rightarrow> string \<Rightarrow> error + nat" where
  "offset_of_key m k =
     (case call_hash_func (hash_func m) k of Inl e \<Rightarrow> Inl e
      | Inr h \<Rightarrow>
          if capacity m = 0 then Inl Division_by_zero
          else let offset = unat (h mod of_nat (capacity m))
               in if offset < length (table m) then Inr offset else Inl Out_of_bounds_read)"

definition bucket_of :: "'v hashmap \<Rightarrow> string \<Rightarrow> error + 'v hashmap_entry list option" where
  "bucket_of m k =
     (case offset_of_key m k of Inl e \<Rightarrow> Inl e
      | Inr offset \<Rightarrow> Inr (table m ! offset))"

text \<open>The loop \<open>while (it) { if (key_equal(entry->key, key)) ...; it = it->next; }\<close>:
  the first entry of the list whose key matches.\<close>

fun find_entry ::
  "key_equal_fn \<Rightarrow> string \<Rightarrow> 'v hashmap_entry list \<Rightarrow> error + 'v hashmap_entry option" where
  "find_entry ke k [] = Inr None"
| "find_entry ke k (e # es) =
     (case call_key_equal ke (key e) k of Inl x \<Rightarrow> Inl x
      | Inr eq \<Rightarrow> if eq then Inr (Some e) else find_entry ke k es)"

definition hashmap_get :: "'v hashmap \<Rightarrow> string option \<Rightarrow> error + 'v option" where
  "hashmap_get m k =
     (case k of None \<Rightarrow> Inr None
      | Some k \<Rightarrow>
          if hashmap_empty m then Inr None
          else case bucket_of m k of Inl e \<Rightarrow> Inl e
               | Inr None \<Rightarrow> Inr None
               | Inr (Some es) \<Rightarrow>
                   (case find_entry (key_equal m) k es of Inl e \<Rightarrow> Inl e
                    | Inr r \<Rightarrow> Inr (map_option val r)))"

definition hashmap_contains_key :: "'v hashmap \<Rightarrow> string option \<Rightarrow> error + bool" where
  "hashmap_contains_key m k =
     (case k of None \<Rightarrow> Inr False
      | Some k \<Rightarrow>
          case bucket_of m k of Inl e \<Rightarrow> Inl e
          | Inr None \<Rightarrow> Inr False
          | Inr (Some es) \<Rightarrow>
              (case find_entry (key_equal m) k es of Inl e \<Rightarrow> Inl e
               | Inr r \<Rightarrow> Inr (r \<noteq> None)))"

text \<open>\<open>hashmap_entries\<close> and \<open>hashmap_keys\<close> walk the table from bucket 0 and every
  bucket from its head, appending to a new list; they return \<open>NULL\<close> for an empty map.\<close>

definition all_entries :: "'v hashmap \<Rightarrow> 'v hashmap_entry list" where
  "all_entries m =
     concat (map (\<lambda>b. case b of None \<Rightarrow> [] | Some es \<Rightarrow> es) (take (capacity m) (table m)))"

definition hashmap_entries :: "'v hashmap \<Rightarrow> error + 'v hashmap_entry list option" where
  "hashmap_entries m =
     (if hashmap_empty m then Inr None
      else if length (table m) < capacity m then Inl Out_of_bounds_read
      else Inr (Some (all_entries m)))"

definition hashmap_keys :: "'v hashmap \<Rightarrow> error + string list option" where
  "hashmap_keys m =
     (if hashmap_empty m then Inr None
      else if length (table m) < capacity m then Inl Out_of_bounds_read
      else Inr (Some (map key (all_entries m))))"

text \<open>\<open>hashmap_rehash_required\<close>: the number of entries of the key's bucket that
  would leave it in a table of twice the capacity, counted only in a full map.  The
  loop hashes the key of every entry of the bucket.\<close>

fun rehash_loop :: "'v hashmap \<Rightarrow> nat \<Rightarrow> 'v hashmap_entry list \<Rightarrow> nat \<Rightarrow> error + nat" where
  "rehash_loop m new_key_offset [] rehash = Inr rehash"
| "rehash_loop m new_key_offset (entry # es) rehash =
     (case offset_of (hash_func m) (key entry) (2 * capacity m) of Inl e \<Rightarrow> Inl e
      | Inr present_key_offset \<Rightarrow>
          rehash_loop m new_key_offset es
            (if new_key_offset \<noteq> present_key_offset \<and> capacity m = size_m m
             then rehash + 1 else rehash))"

definition hashmap_rehash_required :: "'v hashmap \<Rightarrow> string \<Rightarrow> error + nat" where
  "hashmap_rehash_required m k =
     (case bucket_of m k of Inl e \<Rightarrow> Inl e
      | Inr None \<Rightarrow> Inr 0
      | Inr (Some es) \<Rightarrow>
          case offset_of (hash_func m) k (2 * capacity m) of Inl e \<Rightarrow> Inl e
          | Inr new_key_offset \<Rightarrow> rehash_loop m new_key_offset es 0)"

text \<open>The update loop of \<open>hashmap_put\<close>: the value of the first entry whose key
  matches is replaced.\<close>

fun update_entry ::
  "key_equal_fn \<Rightarrow> string \<Rightarrow> 'v \<Rightarrow> 'v hashmap_entry list \<Rightarrow> error + 'v hashmap_entry list" where
  "update_entry ke k v [] = Inr []"
| "update_entry ke k v (e # es) =
     (case call_key_equal ke (key e) k of Inl x \<Rightarrow> Inl x
      | Inr eq \<Rightarrow>
          if eq then Inr (e\<lparr>val := v\<rparr> # es)
          else case update_entry ke k v es of Inl x \<Rightarrow> Inl x
               | Inr es' \<Rightarrow> Inr (e # es'))"

text \<open>
  \<open>hashmap_put\<close> and \<open>hashmap_rehash\<close> call each other.  The first argument bounds the
  depth of that chain of calls; a call that would exceed it returns \<open>Out_of_fuel\<close>.
\<close>

fun hashmap_put :: "nat \<Rightarrow> 'v hashmap \<Rightarrow> string option \<Rightarrow> 'v \<Rightarrow> error + 'v hashmap"
  and hashmap_rehash :: "nat \<Rightarrow> 'v hashmap \<Rightarrow> nat \<Rightarrow> error + 'v hashmap" where
  "hashmap_put 0 m k v = Inl Out_of_fuel"
| "hashmap_put (Suc d) m None v = Inr m"
| "hashmap_put (Suc d) m (Some k) v =
     (case offset_of_key m k of Inl e \<Rightarrow> Inl e
      | Inr offset \<Rightarrow>
          case table m ! offset of
            None \<Rightarrow>
              Inr (m\<lparr>table := (table m)[offset := Some [\<lparr>key = k, val = v\<rparr>]],
                     size_m := size_m m + 1\<rparr>)
          | Some es \<Rightarrow>
              case find_entry (key_equal m) k es of Inl e \<Rightarrow> Inl e
              | Inr (Some found) \<Rightarrow>
                  (case update_entry (key_equal m) k v es of Inl e \<Rightarrow> Inl e
                   | Inr es' \<Rightarrow> Inr (m\<lparr>table := (table m)[offset := Some es']\<rparr>))
              | Inr None \<Rightarrow>
                  case hashmap_rehash_required m k of Inl e \<Rightarrow> Inl e
                  | Inr r \<Rightarrow>
                      if r \<noteq> 0
                      then case hashmap_rehash d m (2 * capacity m) of Inl e \<Rightarrow> Inl e
                           | Inr m' \<Rightarrow> hashmap_put d m' (Some k) v
                      else Inr (m\<lparr>table := (table m)[offset := Some (\<lparr>key = k, val = v\<rparr> # es)],
                                 size_m := size_m m + 1\<rparr>))"
| "hashmap_rehash d m cap =
     (case hashmap_entries m of Inl e \<Rightarrow> Inl e
      | Inr None \<Rightarrow> Inl Null_dereference
      | Inr (Some entries) \<Rightarrow>
          fold (\<lambda>entry r. case r of Inl e \<Rightarrow> Inl e
                          | Inr m' \<Rightarrow> hashmap_put d m' (Some (key entry)) (val entry))
            entries
            (Inr (m\<lparr>table := replicate cap None, size_m := 0, capacity := cap\<rparr>)))"

section \<open>IEEE-754 conversion (cerializer.c)\<close>

text \<open>
  A \<open>float\<close>, \<open>double\<close> or \<open>long double\<close> is the rational number it denotes, and the
  arithmetic of \<open>pack754\<close> and \<open>unpack754\<close> is exact: on the values of binary32 and
  binary64 every step of the two functions (halving, doubling, subtracting 1, the
  product with the power of two) is exact in \<open>long double\<close> as well.  The sum
  \<open>(1LL<<significandbits) + 0.5f\<close> is taken exactly; evaluated in \<open>float\<close> it rounds to
  \<open>2 ^ significandbits\<close>, which gives the same significand for every value of the two
  formats.  The two normalisation loops are recursive functions; the second one does
  not terminate on a number that is not positive, which is the value
  \<open>Does_not_terminate\<close>.
\<close>

function norm_down :: "rat \<Rightarrow> int \<Rightarrow> rat \<times> int" where
  "norm_down fnorm shift =
     (if fnorm \<ge> 2 then norm_down (fnorm / 2) (shift + 1) else (fnorm, shift))"
  by pat_completeness auto
termination
proof (relation "measure (\<lambda>(fnorm, shift). nat \<lfloor>fnorm\<rfloor>)")
  show "wf (measure (\<lambda>(fnorm, shift). nat \<lfloor>fnorm\<rfloor>))" by simp
next
  fix fnorm :: rat and shift :: int
  assume a: "2 \<le> fnorm"
  have "fnorm / 2 + 1 \<le> fnorm" using a by simp
  then have "\<lfloor>fnorm / 2 + 1\<rfloor> \<le> \<lfloor>fnorm\<rfloor>" by (rule floor_mono)
  then have "\<lfloor>fnorm / 2\<rfloor> < \<lfloor>fnorm\<rfloor>" by simp
  moreover have "0 < \<lfloor>fnorm\<rfloor>" using a by simp
  ultimately show "((fnorm / 2, shift + 1), (fnorm, shift)) \<in> measure (\<lambda>(fnorm, shift). nat \<lfloor>fnorm\<rfloor>)"
    by simp
qed

function norm_up :: "rat \<Rightarrow> int \<Rightarrow> error + rat \<times> int" where
  "norm_up fnorm shift =
     (if fnorm \<le> 0 then Inl Does_not_terminate
      else if fnorm < 1 then norm_up (fnorm * 2) (shift - 1) else Inr (fnorm, shift))"
  by pat_completeness auto
termination
proof (relation "measure (\<lambda>(fnorm, shift). nat \<lfloor>1 / fnorm\<rfloor>)")
  show "wf (measure (\<lambda>(fnorm, shift). nat \<lfloor>1 / fnorm\<rfloor>))" by simp
next
  fix fnorm :: rat and shift :: int
  assume a: "\<not> fnorm \<le> 0" "fnorm < 1"
  then have b: "1 < 1 / fnorm" by simp
  have "1 / (fnorm * 2) + 1 / 2 \<le> 1 / fnorm" using a b by (simp add: field_simps)
  then have c: "\<lfloor>1 / (fnorm * 2) + 1 / 2\<rfloor> \<le> \<lfloor>1 / fnorm\<rfloor>" by (rule floor_mono)
  have "1 / (fnorm * 2) + 1 / 2 \<le> 1 / fnorm" using a b by (simp add: field_simps)
  have d: "1 \<le> \<lfloor>1 / fnorm\<rfloor>" using b by simp
  have "\<lfloor>1 / (fnorm * 2)\<rfloor> < \<lfloor>1 / fnorm\<rfloor>"
  proof (rule ccontr)
    assume "\<not> \<lfloor>1 / (fnorm * 2)\<rfloor> < \<lfloor>1 / fnorm\<rfloor>"
    then have "\<lfloor>1 / fnorm\<rfloor> \<le> \<lfloor>1 / (fnorm * 2)\<rfloor>" by simp
    then have "of_int \<lfloor>1 / fnorm\<rfloor> \<le> 1 / (fnorm * 2)" by (simp add: le_floor_iff)
    moreover have "1 / fnorm < of_int \<lfloor>1 / fnorm\<rfloor> + 1" by linarith
    moreover have "(1::rat) \<le> of_int \<lfloor>1 / fnorm\<rfloor>" using d by linarith
    moreover have "1 / (fnorm * 2) = (1 / fnorm) / 2" by simp
    ultimately show False by linarith
  qed
  with d show "((fnorm * 2, shift - 1), (fnorm, shift)) \<in> measure (\<lambda>(fnorm, shift). nat \<lfloor>1 / fnorm\<rfloor>)"
    by simp
qed

definition pack754 :: "rat \<Rightarrow> nat \<Rightarrow> nat \<Rightarrow> error + 64 word" where
  "pack754 f bits expbits =
     (let significandbits = bits - expbits - 1
      in if f = 0 then Inr 0
         else let sign = (if f < 0 then 1 else 0 :: 64 word);
                  fnorm = (if f < 0 then - f else f);
                  (fnorm, shift) = norm_down fnorm 0
              in case norm_up fnorm shift of Inl e \<Rightarrow> Inl e
                 | Inr (fnorm, shift) \<Rightarrow>
                     let fnorm = fnorm - 1;
                         significand = (word_of_int \<lfloor>fnorm * (2 ^ significandbits + 1 / 2)\<rfloor> :: 64 word);
                         exp = (word_of_int (shift + (2 ^ (expbits - 1) - 1)) :: 64 word)
                     in Inr (push_bit (bits - 1) sign OR push_bit (bits - expbits - 1) exp
                             OR significand))"

text \<open>The two scaling loops of \<open>unpack754\<close>.\<close>

fun scale_up :: "nat \<Rightarrow> rat \<Rightarrow> rat" where
  "scale_up 0 result = result"
| "scale_up (Suc shift) result = scale_up shift (result * 2)"

fun scale_down :: "nat \<Rightarrow> rat \<Rightarrow> rat" where
  "scale_down 0 result = result"
| "scale_down (Suc shift) result = scale_down shift (result / 2)"

definition unpack754 :: "64 word \<Rightarrow> nat \<Rightarrow> nat \<Rightarrow> rat" where
  "unpack754 i bits expbits =
     (let significandbits = bits - expbits - 1
      in if i = 0 then 0
         else let result = of_int (uint (i AND (push_bit significandbits 1 - 1)));
                  result = result / of_int (uint (push_bit significandbits 1 :: 64 word));
                  result = result + 1;
                  bias = (push_bit (expbits - 1) 1 - 1 :: 32 word);
                  shift = sint ((drop_bit significandbits i AND (push_bit expbits 1 - 1))
                                - ucast bias);
                  result = (if shift > 0 then scale_up (nat shift) result
                            else scale_down (nat (- shift)) result)
              in result * (if drop_bit (bits - 1) i AND 1 \<noteq> 0 then - 1 else 1))"

definition pack754_32 :: "rat \<Rightarrow> error + 64 word" where
  "pack754_32 f = pack754 f 32 8"

definition pack754_64 :: "rat \<Rightarrow> error + 64 word" where
  "pack754_64 f = pack754 f 64 11"

definition unpack754_32 :: "64 word \<Rightarrow> rat" where
  "unpack754_32 i = unpack754 i 32 8"

definition unpack754_64 :: "64 word \<Rightarrow> rat" where
  "unpack754_64 i = unpack754 i 64 11"


section \<open>Dynamic message (dynmessage.h, dynmessage.c)\<close>

text \<open>\<open>dyn_field_type\<close> is a C enumeration: an \<open>int\<close> with thirteen named values.\<close>

type_synonym dyn_field_type = int

abbreviation (input) ENUMERATION_TYPE :: dyn_field_type where "ENUMERATION_TYPE \<equiv> 0"
abbreviation (input) INT8_TYPE :: dyn_field_type where "INT8_TYPE \<equiv> 1"
abbreviation (input) UNSIGNED_INT8_TYPE :: dyn_field_type where "UNSIGNED_INT8_TYPE \<equiv> 2"
abbreviation (input) INT16_TYPE :: dyn_field_type where "INT16_TYPE \<equiv> 3"
abbreviation (input) UNSIGNED_INT16_TYPE :: dyn_field_type where "UNSIGNED_INT16_TYPE \<equiv> 4"
abbreviation (input) INT32_TYPE :: dyn_field_type where "INT32_TYPE \<equiv> 5"
abbreviation (input) UNSIGNED_INT32_TYPE :: dyn_field_type where "UNSIGNED_INT32_TYPE \<equiv> 6"
abbreviation (input) INT64_TYPE :: dyn_field_type where "INT64_TYPE \<equiv> 7"
abbreviation (input) UNSIGNED_INT64_TYPE :: dyn_field_type where "UNSIGNED_INT64_TYPE \<equiv> 8"
abbreviation (input) FLOAT32_TYPE :: dyn_field_type where "FLOAT32_TYPE \<equiv> 9"
abbreviation (input) FLOAT64_TYPE :: dyn_field_type where "FLOAT64_TYPE \<equiv> 10"
abbreviation (input) STRING_TYPE :: dyn_field_type where "STRING_TYPE \<equiv> 11"
abbreviation (input) NO_TYPE :: dyn_field_type where "NO_TYPE \<equiv> 12"

text \<open>
  The union \<open>dyn_field_value\<close>, tagged with the member that was written last;
  \<open>Unwritten\<close> is a union that has been allocated and not written.  A floating-point
  number is the rational it denotes.
\<close>

datatype dyn_field_value =
    Enum_value "32 word"
  | Int8_value byte
  | Uint8_value byte
  | Int16_value "32 word"
  | Uint16_value "32 word"
  | Int32_value "64 word"
  | Uint32_value "64 word"
  | Int64_value "64 word"
  | Uint64_value "64 word"
  | Float32_value rat
  | Float64_value rat
  | String_value string
  | Unwritten

record dyn_field =
  f_name :: "string option"
  f_type :: dyn_field_type
  f_value :: "dyn_field_value option"
  f_seq :: int

record dyn_field_list =
  fl_list :: "dyn_field option list"
  list_length :: int

record dynamicmessage =
  m_name :: "string option"
  fields_info :: "dyn_field hashmap option"
  field_count :: int

text \<open>
  The object behind the \<open>void *value\<close> argument of a put: a \<open>char\<close>, a \<open>short\<close>, an
  \<open>int\<close>, a 64-bit integer (\<open>long\<close> or \<open>long long\<close>), a \<open>float\<close>, a \<open>double\<close> or a
  string, signed or unsigned alike.  \<open>update_field_value\<close> reads it through a pointer
  of the type that belongs to the field's type tag; reading an object through a
  pointer of another size is \<open>Invalid_access\<close>.
\<close>

datatype c_object =
    Char_obj byte
  | Short_obj "16 word"
  | Int_obj "32 word"
  | Long_obj "64 word"
  | Float_obj rat
  | Double_obj rat
  | String_obj string

fun read_char :: "c_object \<Rightarrow> error + byte" where
  "read_char (Char_obj c) = Inr c"
| "read_char _ = Inl Invalid_access"

fun read_int :: "c_object \<Rightarrow> error + 32 word" where
  "read_int (Int_obj i) = Inr i"
| "read_int _ = Inl Invalid_access"

fun read_long :: "c_object \<Rightarrow> error + 64 word" where
  "read_long (Long_obj i) = Inr i"
| "read_long _ = Inl Invalid_access"

fun read_float :: "c_object \<Rightarrow> error + rat" where
  "read_float (Float_obj f) = Inr f"
| "read_float _ = Inl Invalid_access"

fun read_double :: "c_object \<Rightarrow> error + rat" where
  "read_double (Double_obj f) = Inr f"
| "read_double _ = Inl Invalid_access"

fun read_string :: "c_object \<Rightarrow> error + string" where
  "read_string (String_obj s) = Inr s"
| "read_string _ = Inl Invalid_access"

definition dynmessage_initialized :: "dynamicmessage \<Rightarrow> bool" where
  "dynmessage_initialized message = (fields_info message \<noteq> None)"

text \<open>The \<open>switch\<close> of \<open>update_field_value\<close>: the union after the member selected by
  the field's type has been assigned from \<open>value\<close>.\<close>

definition store_value :: "dyn_field_type \<Rightarrow> dyn_field_value \<Rightarrow> c_object \<Rightarrow> error + dyn_field_value" where
  "store_value t value_to_store obj =
     (if t = ENUMERATION_TYPE then map_sum id Enum_value (read_int obj)
      else if t = INT8_TYPE then map_sum id Int8_value (read_char obj)
      else if t = UNSIGNED_INT8_TYPE then map_sum id Uint8_value (read_char obj)
      else if t = INT16_TYPE then map_sum id Int16_value (read_int obj)
      else if t = UNSIGNED_INT16_TYPE then map_sum id Uint16_value (read_int obj)
      else if t = INT32_TYPE then map_sum id Int32_value (read_long obj)
      else if t = UNSIGNED_INT32_TYPE then map_sum id Uint32_value (read_long obj)
      else if t = INT64_TYPE then map_sum id Int64_value (read_long obj)
      else if t = UNSIGNED_INT64_TYPE then map_sum id Uint64_value (read_long obj)
      else if t = FLOAT32_TYPE then map_sum id Float32_value (read_float obj)
      else if t = FLOAT64_TYPE then map_sum id Float64_value (read_double obj)
      else if t = STRING_TYPE then map_sum id String_value (read_string obj)
      else Inr value_to_store)"

definition update_field_value ::
  "nat \<Rightarrow> dynamicmessage \<Rightarrow> string option \<Rightarrow> c_object \<Rightarrow> error + dynamicmessage" where
  "update_field_value fuel message name obj =
     (case fields_info message of None \<Rightarrow> Inl Null_dereference
      | Some fields_info' \<Rightarrow>
          case hashmap_get fields_info' name of Inl e \<Rightarrow> Inl e
          | Inr None \<Rightarrow> Inl Null_dereference
          | Inr (Some field) \<Rightarrow>
              let value_to_store = (case f_value field of None \<Rightarrow> Unwritten | Some u \<Rightarrow> u)
              in case store_value (f_type field) value_to_store obj of Inl e \<Rightarrow> Inl e
                 | Inr u \<Rightarrow>
                     case hashmap_put fuel fields_info' name (field\<lparr>f_value := Some u\<rparr>) of
                       Inl e \<Rightarrow> Inl e
                     | Inr h \<Rightarrow> Inr (message\<lparr>fields_info := Some h\<rparr>))"

text \<open>\<open>dynmessage_create\<close> allocates a handle and does not initialise it: its fields
  are those of the fresh allocation, the argument of the model.\<close>

definition dynmessage_create :: "dynamicmessage \<Rightarrow> dynamicmessage" where
  "dynmessage_create fresh = fresh"

definition dynmessage_init :: "dynamicmessage \<Rightarrow> string option \<Rightarrow> dynamicmessage" where
  "dynmessage_init message name =
     (case name of None \<Rightarrow> message
      | Some n \<Rightarrow>
          message\<lparr>m_name := Some n,
                  fields_info := Some (hashmap_init 17 (Some Test_string_equal) None),
                  field_count := 0\<rparr>)"

definition dynmessage_put_field_and_value ::
  "nat \<Rightarrow> dynamicmessage \<Rightarrow> string option \<Rightarrow> dyn_field_type \<Rightarrow> c_object option
     \<Rightarrow> error + dynamicmessage" where
  "dynmessage_put_field_and_value fuel message name type value =
     (if \<not> dynmessage_initialized message \<or> name = None \<or> value = None then Inr message
      else if type < ENUMERATION_TYPE \<or> type > STRING_TYPE then Inr message
      else case fields_info message of None \<Rightarrow> Inl Null_dereference
      | Some field_info \<Rightarrow>
          case hashmap_contains_key field_info name of Inl e \<Rightarrow> Inl e
          | Inr present \<Rightarrow>
              case (if \<not> present
                    then case hashmap_put fuel field_info name
                                \<lparr>f_name = name, f_type = type, f_value = None,
                                 f_seq = field_count message + 1\<rparr> of
                           Inl e \<Rightarrow> Inl e
                         | Inr h \<Rightarrow> Inr (message\<lparr>field_count := field_count message + 1,
                                                  fields_info := Some h\<rparr>)
                    else Inr message) of
                Inl e \<Rightarrow> Inl e
              | Inr message' \<Rightarrow>
                  (case value of None \<Rightarrow> Inr message'
                   | Some obj \<Rightarrow> update_field_value fuel message' name obj))"

text \<open>The macro \<open>dynmessage_put_field(message, name, type)\<close>.\<close>

definition dynmessage_put_field ::
  "nat \<Rightarrow> dynamicmessage \<Rightarrow> string option \<Rightarrow> dyn_field_type \<Rightarrow> error + dynamicmessage" where
  "dynmessage_put_field fuel message name type =
     dynmessage_put_field_and_value fuel message name type None"

text \<open>\<open>dynmessage_get_field\<close>: the descriptor written to the output parameter.\<close>

definition dynmessage_get_field :: "dynamicmessage \<Rightarrow> string option \<Rightarrow> error + dyn_field" where
  "dynmessage_get_field message name =
     (case (if dynmessage_initialized message \<and> name \<noteq> None
            then case fields_info message of None \<Rightarrow> Inl Null_dereference
                 | Some fields_info' \<Rightarrow> hashmap_get fields_info' name
            else Inr None) of
        Inl e \<Rightarrow> Inl e
      | Inr None \<Rightarrow> Inr \<lparr>f_name = None, f_type = NO_TYPE, f_value = None, f_seq = - 1\<rparr>
      | Inr (Some field) \<Rightarrow>
          Inr \<lparr>f_name = name, f_type = f_type field, f_value = f_value field,
               f_seq = f_seq field\<rparr>)"

text \<open>The loop of \<open>dynmessage_get_fields\<close> over the keys: each descriptor is stored at
  \<open>temp_array[field->seq - 1]\<close>, an array of \<open>field_count\<close> pointers.\<close>

fun fill_fields ::
  "dynamicmessage \<Rightarrow> string list \<Rightarrow> dyn_field option list \<Rightarrow> error + dyn_field option list" where
  "fill_fields message [] temp_array = Inr temp_array"
| "fill_fields message (name # rest) temp_array =
     (case dynmessage_get_field message (Some name) of Inl e \<Rightarrow> Inl e
      | Inr field \<Rightarrow>
          if 0 \<le> f_seq field - 1 \<and> nat (f_seq field - 1) < length temp_array
          then fill_fields message rest (temp_array[nat (f_seq field - 1) := Some field])
          else Inl Out_of_bounds_write)"

definition dynmessage_get_fields :: "dynamicmessage \<Rightarrow> error + dyn_field_list" where
  "dynmessage_get_fields message =
     (if dynmessage_initialized message \<and> field_count message > 0
      then case fields_info message of None \<Rightarrow> Inl Null_dereference
           | Some fields_info' \<Rightarrow>
               case hashmap_keys fields_info' of Inl e \<Rightarrow> Inl e
               | Inr None \<Rightarrow> Inl Null_dereference
               | Inr (Some field_keys) \<Rightarrow>
                   case fill_fields message field_keys
                          (replicate (nat (field_count message)) None) of
                     Inl e \<Rightarrow> Inl e
                   | Inr temp_array \<Rightarrow>
                       Inr \<lparr>fl_list = temp_array, list_length = field_count message\<rparr>
      else Inr \<lparr>fl_list = [], list_length = 0\<rparr>)"


section \<open>Serialization of primitive values (cerializer.c)\<close>

definition serialize_int16 :: "32 word \<Rightarrow> byte list" where
  "serialize_int16 i = packi16 i"

definition deserialize_int16 :: "byte list \<Rightarrow> error + 32 word" where
  "deserialize_int16 buf = unpacki16 buf"

definition deserialize_uint16 :: "byte list \<Rightarrow> error + 32 word" where
  "deserialize_uint16 buf = unpacku16 buf"

definition serialize_int32 :: "64 word \<Rightarrow> byte list" where
  "serialize_int32 i = packi32 i"

definition deserialize_int32 :: "byte list \<Rightarrow> error + 64 word" where
  "deserialize_int32 buf = unpacki32 buf"

definition deserialize_uint32 :: "byte list \<Rightarrow> error + 64 word" where
  "deserialize_uint32 buf = unpacku32 buf"

definition serialize_int64 :: "64 word \<Rightarrow> byte list" where
  "serialize_int64 i = packi64 i"

definition deserialize_int64 :: "byte list \<Rightarrow> error + 64 word" where
  "deserialize_int64 buf = unpacki64 buf"

definition deserialize_uint64 :: "byte list \<Rightarrow> error + 64 word" where
  "deserialize_uint64 buf = unpacku64 buf"

definition serialize_float32 :: "rat \<Rightarrow> error + byte list" where
  "serialize_float32 f = map_sum id packi32 (pack754_32 f)"

definition deserialize_float32 :: "byte list \<Rightarrow> error + rat" where
  "deserialize_float32 buf = map_sum id unpack754_32 (unpacku32 buf)"

definition serialize_float64 :: "rat \<Rightarrow> error + byte list" where
  "serialize_float64 f = map_sum id packi64 (pack754_64 f)"

definition deserialize_float64 :: "byte list \<Rightarrow> error + rat" where
  "deserialize_float64 buf = map_sum id unpack754_64 (unpacku64 buf)"

text \<open>
  \<open>strslice(dest, src, start_idx, n)\<close>: the bytes copied to \<open>dest\<close>.  The loop runs
  from \<open>start_idx\<close> while \<open>i < start_idx + n\<close> in \<open>size_t\<close>, so it copies nothing when
  the sum wraps around.
\<close>

definition strslice :: "byte list \<Rightarrow> 64 word \<Rightarrow> 64 word \<Rightarrow> error + byte list" where
  "strslice src start_idx n =
     (if start_idx < start_idx + n
      then if unat start_idx + unat n \<le> length src
           then Inr (take (unat n) (drop (unat start_idx) src))
           else Inl Out_of_bounds_read
      else Inr [])"

record serialized_data_info =
  ser_data :: "byte list option"
  ser_data_len :: int

section \<open>Framed codec (dynmessage_cerializer.c)\<close>

abbreviation (input) DYN_MESSAGE_FIXED_LEN :: int where "DYN_MESSAGE_FIXED_LEN \<equiv> 16"
abbreviation (input) DYN_FIELD_FIXED_LEN :: int where "DYN_FIELD_FIXED_LEN \<equiv> 16"
abbreviation (input) DYN_MSG_MIN_LEN :: int where "DYN_MSG_MIN_LEN \<equiv> 32"
abbreviation (input) DYN_MSG_START :: int where "DYN_MSG_START \<equiv> 1044266557"
abbreviation (input) DYN_FIELD_TYPE_LEN :: nat where "DYN_FIELD_TYPE_LEN \<equiv> 13"

text \<open>The array \<open>DYN_FIELD_TYPE_SER_SIZE[DYN_FIELD_TYPE_LEN]\<close>: eleven initialisers, the
  remaining two elements zero.\<close>

definition DYN_FIELD_TYPE_SER_SIZE :: "int list" where
  "DYN_FIELD_TYPE_SER_SIZE = [4, 2, 2, 4, 4, 8, 8, 4, 8, 0, 0] @ replicate (DYN_FIELD_TYPE_LEN - 11) 0"

definition ser_size :: "dyn_field_type \<Rightarrow> error + int" where
  "ser_size t =
     (if 0 \<le> t \<and> nat t < length DYN_FIELD_TYPE_SER_SIZE
      then Inr (DYN_FIELD_TYPE_SER_SIZE ! nat t) else Inl Out_of_bounds_read)"

definition strlen :: "string option \<Rightarrow> error + int" where
  "strlen s = (case s of None \<Rightarrow> Inl Null_dereference | Some s \<Rightarrow> Inr (int (length s)))"

text \<open>\<open>field->value->string_value\<close>.\<close>

definition string_value :: "dyn_field \<Rightarrow> error + string" where
  "string_value field =
     (case f_value field of None \<Rightarrow> Inl Null_dereference
      | Some (String_value s) \<Rightarrow> Inr s
      | Some _ \<Rightarrow> Inl Invalid_access)"

text \<open>\<open>field_list->list[i]\<close>; an element that was never assigned is an indeterminate
  pointer.\<close>

definition list_at :: "dyn_field_list \<Rightarrow> nat \<Rightarrow> error + dyn_field" where
  "list_at field_list i =
     (if i < length (fl_list field_list)
      then case fl_list field_list ! i of None \<Rightarrow> Inl Invalid_access | Some field \<Rightarrow> Inr field
      else Inl Out_of_bounds_read)"

text \<open>The size of a field's value: \<open>value_size\<close> of \<open>dynmessage_serialize_bin\<close>, and
  the last two summands of \<open>field_length\<close> in \<open>calc_dynmessage_serialized_len\<close>.\<close>

definition value_size :: "dyn_field \<Rightarrow> error + int" where
  "value_size field =
     (case ser_size (f_type field) of Inl e \<Rightarrow> Inl e
      | Inr sz \<Rightarrow>
          if f_type field = STRING_TYPE
          then case string_value field of Inl e \<Rightarrow> Inl e
               | Inr s \<Rightarrow> Inr (int (length s))
          else Inr sz)"

text \<open>The conversion of a \<open>long\<close> or \<open>size_t\<close> value to \<open>int\<close> keeps its low 32 bits.\<close>

definition to_int :: "64 word \<Rightarrow> int" where
  "to_int l = sint (ucast l :: 32 word)"

text \<open>
  \<open>field_length\<close> of \<open>calc_dynmessage_serialized_len\<close>: both sums are computed in
  \<open>size_t\<close> and assigned to the \<open>int\<close> variable.
\<close>

definition field_length :: "dyn_field \<Rightarrow> error + int" where
  "field_length field =
     (case strlen (f_name field) of Inl e \<Rightarrow> Inl e
      | Inr k \<Rightarrow>
          case ser_size (f_type field) of Inl e \<Rightarrow> Inl e
          | Inr sz \<Rightarrow>
              let field_length = to_int (word_of_int (DYN_FIELD_FIXED_LEN + k + sz))
              in if f_type field = STRING_TYPE
                 then case string_value field of Inl e \<Rightarrow> Inl e
                      | Inr s \<Rightarrow> Inr (to_int (word_of_int (field_length + int (length s))))
                 else Inr field_length)"

text \<open>The loop of \<open>calc_dynmessage_serialized_len\<close>, from index \<open>i\<close> up to
  \<open>list_length\<close>, \<open>n\<close> iterations being left.  \<open>result + field_length\<close> is an
  addition of two \<open>int\<close> values.\<close>

fun calc_loop :: "dyn_field_list \<Rightarrow> nat \<Rightarrow> nat \<Rightarrow> int \<Rightarrow> error + int" where
  "calc_loop field_list i 0 result = Inr result"
| "calc_loop field_list i (Suc n) result =
     (case list_at field_list i of Inl e \<Rightarrow> Inl e
      | Inr field \<Rightarrow>
          case field_length field of Inl e \<Rightarrow> Inl e
          | Inr l \<Rightarrow>
              if result + l < - 2147483648 \<or> 2147483647 < result + l
              then Inl Signed_overflow
              else calc_loop field_list (Suc i) n (result + l))"

definition calc_dynmessage_serialized_len :: "dynamicmessage \<Rightarrow> error + int" where
  "calc_dynmessage_serialized_len message =
     (case dynmessage_get_fields message of Inl e \<Rightarrow> Inl e
      | Inr field_list \<Rightarrow>
          if list_length field_list > 0
          then case strlen (m_name message) of Inl e \<Rightarrow> Inl e
               | Inr m \<Rightarrow>
                   calc_loop field_list 0 (nat (list_length field_list))
                     (to_int (word_of_int (DYN_MESSAGE_FIXED_LEN + m)))
          else Inr 0)"

subsection \<open>Verification\<close>

text \<open>The input of the decoder is the pointer \<open>data\<close> (\<open>None\<close> for \<open>NULL\<close>, otherwise
  the bytes of the buffer it points to) and the length \<open>data_len\<close> that the caller
  states.\<close>

definition verify_dynmessage_start :: "byte list option \<Rightarrow> int \<Rightarrow> error + bool" where
  "verify_dynmessage_start data data_len =
     (case data of None \<Rightarrow> Inr False
      | Some d \<Rightarrow>
          if data_len \<ge> 4
          then case deserialize_int32 d of Inl e \<Rightarrow> Inl e
               | Inr dynmessage_start \<Rightarrow> Inr (to_int dynmessage_start = DYN_MSG_START)
          else Inr False)"

definition get_encoded_dynmessage_length :: "byte list option \<Rightarrow> int \<Rightarrow> error + int" where
  "get_encoded_dynmessage_length data data_len =
     (case data of None \<Rightarrow> Inr 0
      | Some d \<Rightarrow>
          if data_len \<ge> 8
          then case strslice d 4 4 of Inl e \<Rightarrow> Inl e
               | Inr buffer \<Rightarrow> map_sum id to_int (deserialize_int32 buffer)
          else Inr 0)"

definition verify_full_dynmessage :: "byte list option \<Rightarrow> int \<Rightarrow> error + bool" where
  "verify_full_dynmessage data data_len =
     (case verify_dynmessage_start data data_len of Inl e \<Rightarrow> Inl e
      | Inr False \<Rightarrow> Inr False
      | Inr True \<Rightarrow>
          case get_encoded_dynmessage_length data data_len of Inl e \<Rightarrow> Inl e
          | Inr dynmessage_length \<Rightarrow> Inr (dynmessage_length \<le> data_len))"


subsection \<open>Serialization\<close>

text \<open>
  The output buffer is allocated with \<open>message_length\<close> bytes and written through the
  moving pointer \<open>data\<close>, here the buffer and the offset of \<open>data\<close> in it.  A write that
  does not fit the buffer is \<open>Out_of_bounds_write\<close>.  The bytes of a fresh allocation
  are indeterminate; the model takes them from its first argument.
\<close>

definition store :: "byte list \<Rightarrow> nat \<Rightarrow> byte list \<Rightarrow> error + byte list" where
  "store buf pos bytes =
     (if pos + length bytes \<le> length buf
      then Inr (take pos buf @ bytes @ drop (pos + length bytes) buf)
      else Inl Out_of_bounds_write)"

text \<open>A write at \<open>data\<close> followed by \<open>data += n\<close>.\<close>

definition emit :: "byte list \<Rightarrow> nat \<Rightarrow> byte list \<times> nat \<Rightarrow> error + byte list \<times> nat" where
  "emit bytes n st =
     (case store (fst st) (snd st) bytes of Inl e \<Rightarrow> Inl e
      | Inr buf \<Rightarrow> Inr (buf, snd st + n))"

definition ebind :: "error + 'a \<Rightarrow> ('a \<Rightarrow> error + 'b) \<Rightarrow> error + 'b" where
  "ebind r f = (case r of Inl e \<Rightarrow> Inl e | Inr x \<Rightarrow> f x)"

text \<open>The \<open>switch\<close> of the serializer: the bytes written at \<open>data\<close> for the value.\<close>

definition value_bytes :: "dyn_field \<Rightarrow> error + byte list" where
  "value_bytes field =
     (let t = f_type field in
      if t = ENUMERATION_TYPE \<or> t = INT16_TYPE \<or> t = UNSIGNED_INT16_TYPE \<or> t = INT32_TYPE
         \<or> t = UNSIGNED_INT32_TYPE \<or> t = INT64_TYPE \<or> t = UNSIGNED_INT64_TYPE
         \<or> t = FLOAT32_TYPE \<or> t = FLOAT64_TYPE \<or> t = STRING_TYPE
      then case f_value field of None \<Rightarrow> Inl Null_dereference
           | Some u \<Rightarrow>
               if t = ENUMERATION_TYPE then
                 (case u of Enum_value v \<Rightarrow> Inr (serialize_int32 (ucast v))
                  | _ \<Rightarrow> Inl Invalid_access)
               else if t = INT16_TYPE then
                 (case u of Int16_value v \<Rightarrow> Inr (serialize_int16 v) | _ \<Rightarrow> Inl Invalid_access)
               else if t = UNSIGNED_INT16_TYPE then
                 (case u of Uint16_value v \<Rightarrow> Inr (serialize_int16 v) | _ \<Rightarrow> Inl Invalid_access)
               else if t = INT32_TYPE then
                 (case u of Int32_value v \<Rightarrow> Inr (serialize_int32 v) | _ \<Rightarrow> Inl Invalid_access)
               else if t = UNSIGNED_INT32_TYPE then
                 (case u of Uint32_value v \<Rightarrow> Inr (serialize_int32 v) | _ \<Rightarrow> Inl Invalid_access)
               else if t = INT64_TYPE then
                 (case u of Int64_value v \<Rightarrow> Inr (serialize_int64 v) | _ \<Rightarrow> Inl Invalid_access)
               else if t = UNSIGNED_INT64_TYPE then
                 (case u of Uint64_value v \<Rightarrow> Inr (serialize_int64 v) | _ \<Rightarrow> Inl Invalid_access)
               else if t = FLOAT32_TYPE then
                 (case u of Float32_value v \<Rightarrow> serialize_float32 v | _ \<Rightarrow> Inl Invalid_access)
               else if t = FLOAT64_TYPE then
                 (case u of Float64_value v \<Rightarrow> serialize_float64 v | _ \<Rightarrow> Inl Invalid_access)
               else
                 (case u of String_value v \<Rightarrow> Inr (map byte_of_char v) | _ \<Rightarrow> Inl Invalid_access)
      else Inr [])"

definition serialize_field :: "dyn_field \<Rightarrow> byte list \<times> nat \<Rightarrow> error + byte list \<times> nat" where
  "serialize_field field st =
     ebind (value_size field) (\<lambda>value_size.
     ebind (strlen (f_name field)) (\<lambda>k.
     ebind (emit (serialize_int32 (word_of_int (DYN_FIELD_FIXED_LEN + k + value_size))) 4 st) (\<lambda>st.
     ebind (emit (serialize_int32 (word_of_int k)) 4 st) (\<lambda>st.
     ebind (emit (map byte_of_char (the (f_name field))) (nat k) st) (\<lambda>st.
     ebind (emit (serialize_int32 (word_of_int (f_type field))) 4 st) (\<lambda>st.
     ebind (emit (serialize_int32 (word_of_int value_size)) 4 st) (\<lambda>st.
     ebind (value_bytes field) (\<lambda>bytes.
     emit bytes (nat value_size) st))))))))"

fun serialize_loop ::
  "dyn_field_list \<Rightarrow> nat \<Rightarrow> nat \<Rightarrow> byte list \<times> nat \<Rightarrow> error + byte list \<times> nat" where
  "serialize_loop field_list i 0 st = Inr st"
| "serialize_loop field_list i (Suc n) st =
     ebind (list_at field_list i) (\<lambda>field.
     ebind (serialize_field field st) (\<lambda>st.
     serialize_loop field_list (Suc i) n st))"

definition dynmessage_serialize_bin ::
  "(nat \<Rightarrow> byte) \<Rightarrow> dynamicmessage \<Rightarrow> serialized_data_info \<Rightarrow> error + serialized_data_info" where
  "dynmessage_serialize_bin fresh message serdi =
     ebind (calc_dynmessage_serialized_len message) (\<lambda>message_length.
     if message_length > DYN_MSG_MIN_LEN
     then
       ebind (emit (serialize_int32 (word_of_int DYN_MSG_START)) 4
                (map fresh [0..<nat message_length], 0)) (\<lambda>st.
       ebind (emit (serialize_int32 (word_of_int message_length)) 4 st) (\<lambda>st.
       ebind (strlen (m_name message)) (\<lambda>len.
       ebind (emit (serialize_int32 (word_of_int len)) 4 st) (\<lambda>st.
       ebind (emit (map byte_of_char (the (m_name message))) (nat len) st) (\<lambda>st.
       ebind (emit (serialize_int32 (word_of_int (field_count message))) 4 st) (\<lambda>st.
       ebind (dynmessage_get_fields message) (\<lambda>field_list.
       ebind (serialize_loop field_list 0 (nat (list_length field_list)) st) (\<lambda>st.
       Inr (serdi\<lparr>ser_data := Some (fst st), ser_data_len := message_length\<rparr>)))))))))
     else Inr serdi)"

subsection \<open>Deserialization\<close>

text \<open>
  The decoder takes a bound on the call depth of \<open>hashmap_put\<close> and the contents of
  the handle that \<open>dynmessage_create\<close> allocates, besides its two arguments.
\<close>

text \<open>A four-byte integer of the input at \<open>start_idx\<close>, converted to \<open>int\<close>.\<close>

definition read_int32 :: "byte list \<Rightarrow> 64 word \<Rightarrow> error + int" where
  "read_int32 d start_idx =
     ebind (strslice d start_idx 4) (\<lambda>buffer4.
     map_sum id to_int (deserialize_int32 buffer4))"

text \<open>A name of \<open>len\<close> bytes of the input, copied into a buffer of \<open>len + 1\<close> bytes and
  terminated at index \<open>len\<close>.\<close>

definition read_name :: "byte list \<Rightarrow> 64 word \<Rightarrow> int \<Rightarrow> error + string" where
  "read_name d start_idx len =
     (if len + 1 < 0 then Inl Out_of_memory
      else ebind (strslice d start_idx (word_of_int len)) (\<lambda>bytes.
           if len < 0 then Inl Out_of_bounds_write
           else Inr (c_string bytes)))"

text \<open>The \<open>switch\<close> of the decoder on the field type: the put that it makes with the
  decoded value.\<close>

definition put_decoded ::
  "nat \<Rightarrow> dynamicmessage \<Rightarrow> string \<Rightarrow> dyn_field_type \<Rightarrow> byte list \<Rightarrow> int
     \<Rightarrow> error + dynamicmessage" where
  "put_decoded fuel dyn_message field_name field_type field_value_buffer len =
     (if field_type = ENUMERATION_TYPE then
        ebind (deserialize_int32 field_value_buffer) (\<lambda>v.
        dynmessage_put_field_and_value fuel dyn_message (Some field_name) ENUMERATION_TYPE
          (Some (Int_obj (ucast v))))
      else if field_type = INT16_TYPE then
        ebind (deserialize_int16 field_value_buffer) (\<lambda>v.
        dynmessage_put_field_and_value fuel dyn_message (Some field_name) INT16_TYPE
          (Some (Short_obj (ucast v))))
      else if field_type = UNSIGNED_INT16_TYPE then
        ebind (deserialize_uint16 field_value_buffer) (\<lambda>v.
        dynmessage_put_field_and_value fuel dyn_message (Some field_name) UNSIGNED_INT16_TYPE
          (Some (Int_obj v)))
      else if field_type = INT32_TYPE then
        ebind (deserialize_int32 field_value_buffer) (\<lambda>v.
        dynmessage_put_field_and_value fuel dyn_message (Some field_name) INT32_TYPE
          (Some (Long_obj v)))
      else if field_type = UNSIGNED_INT32_TYPE then
        ebind (deserialize_uint32 field_value_buffer) (\<lambda>v.
        dynmessage_put_field_and_value fuel dyn_message (Some field_name) UNSIGNED_INT32_TYPE
          (Some (Long_obj v)))
      else if field_type = INT64_TYPE then
        ebind (deserialize_int64 field_value_buffer) (\<lambda>v.
        dynmessage_put_field_and_value fuel dyn_message (Some field_name) INT64_TYPE
          (Some (Long_obj v)))
      else if field_type = UNSIGNED_INT64_TYPE then
        ebind (deserialize_uint64 field_value_buffer) (\<lambda>v.
        dynmessage_put_field_and_value fuel dyn_message (Some field_name) UNSIGNED_INT64_TYPE
          (Some (Long_obj v)))
      else if field_type = FLOAT32_TYPE then
        ebind (deserialize_float32 field_value_buffer) (\<lambda>v.
        dynmessage_put_field_and_value fuel dyn_message (Some field_name) FLOAT32_TYPE
          (Some (Float_obj v)))
      else if field_type = FLOAT64_TYPE then
        ebind (deserialize_float64 field_value_buffer) (\<lambda>v.
        dynmessage_put_field_and_value fuel dyn_message (Some field_name) FLOAT64_TYPE
          (Some (Double_obj v)))
      else if field_type = STRING_TYPE then
        ebind (strslice field_value_buffer 0 (word_of_int len)) (\<lambda>bytes.
        dynmessage_put_field_and_value fuel dyn_message (Some field_name) STRING_TYPE
          (Some (String_obj (c_string bytes))))
      else Inr dyn_message)"

text \<open>One iteration of the loop over the field sub-frames.\<close>

definition deserialize_field ::
  "nat \<Rightarrow> byte list \<Rightarrow> dynamicmessage \<times> 64 word \<Rightarrow> error + dynamicmessage \<times> 64 word" where
  "deserialize_field fuel d st =
     (let dyn_message = fst st; start_idx = snd st in
      ebind (read_int32 d start_idx) (\<lambda>field_length.
      let start_idx = start_idx + 4 in
      ebind (read_int32 d start_idx) (\<lambda>len.
      let start_idx = start_idx + 4 in
      ebind (read_name d start_idx len) (\<lambda>field_name.
      let start_idx = start_idx + word_of_int len in
      ebind (read_int32 d start_idx) (\<lambda>field_type.
      let start_idx = start_idx + 4 in
      ebind (read_int32 d start_idx) (\<lambda>len.
      ebind (dynmessage_put_field fuel dyn_message (Some field_name) field_type) (\<lambda>dyn_message.
      let start_idx = start_idx + 4 in
      if len < 0 then Inl Out_of_memory
      else
        ebind (strslice d start_idx (word_of_int len)) (\<lambda>field_value_buffer.
        ebind (put_decoded fuel dyn_message field_name field_type field_value_buffer len)
          (\<lambda>dyn_message.
        Inr (dyn_message, start_idx + word_of_int len))))))))))"

fun deserialize_loop ::
  "nat \<Rightarrow> byte list \<Rightarrow> nat \<Rightarrow> dynamicmessage \<times> 64 word \<Rightarrow> error + dynamicmessage \<times> 64 word" where
  "deserialize_loop fuel d 0 st = Inr st"
| "deserialize_loop fuel d (Suc n) st =
     ebind (deserialize_field fuel d st) (\<lambda>st. deserialize_loop fuel d n st)"

definition dynmessage_deserialize_bin ::
  "nat \<Rightarrow> dynamicmessage \<Rightarrow> byte list option \<Rightarrow> int \<Rightarrow> error + dynamicmessage option" where
  "dynmessage_deserialize_bin fuel fresh data data_len =
     ebind (verify_full_dynmessage data data_len) (\<lambda>verified.
     if verified
     then case data of None \<Rightarrow> Inl Null_dereference
          | Some d \<Rightarrow>
              ebind (read_int32 d 8) (\<lambda>len.
              ebind (read_name d 12 len) (\<lambda>message_name.
              let dyn_message = dynmessage_init (dynmessage_create fresh) (Some message_name);
                  start_idx = 12 + word_of_int len in
              ebind (read_int32 d start_idx) (\<lambda>field_count.
              let start_idx = start_idx + 4 in
              if field_count > 0
              then ebind (deserialize_loop fuel d (nat field_count) (dyn_message, start_idx))
                     (\<lambda>st. Inr (Some (fst st)))
              else Inr (Some dyn_message))))
     else Inr None)"


section \<open>Notions used to state the properties\<close>





fun entry_of :: "string \<Rightarrow> 'v hashmap_entry list \<Rightarrow> 'v hashmap_entry option" where
  "entry_of k [] = None"
| "entry_of k (e # es) = (if key e = k then Some e else entry_of k es)"



text \<open>The field structures that a message stores, in the order of the table.\<close>

definition stored_fields :: "dynamicmessage \<Rightarrow> dyn_field list" where
  "stored_fields message =
     (case fields_info message of None \<Rightarrow> [] | Some h \<Rightarrow> map val (all_entries h))"



section \<open>Example messages\<close>

text \<open>A handle whose fields are zero, a message \<open>msg\<close> initialised on it, and the
  message after \<open>counter: I32 = 7\<close> and then \<open>comment: STRING = "abc"\<close> have been put.\<close>

definition example_handle :: dynamicmessage where
  "example_handle = \<lparr>m_name = None, fields_info = None, field_count = 0\<rparr>"

definition msg0 :: dynamicmessage where
  "msg0 = dynmessage_init (dynmessage_create example_handle) (Some ''msg'')"



text \<open>A serialized-data carrier that the caller has zeroed, a message with one
  \<open>INT16_TYPE\<close> field, one with an \<open>INT64_TYPE\<close> field followed by a string, and
  a fresh allocation filled with the byte \<open>0xAA\<close>.\<close>

definition serdi0 :: serialized_data_info where
  "serdi0 = \<lparr>ser_data = None, ser_data_len = 0\<rparr>"

definition fresh_AA :: "nat \<Rightarrow> byte" where
  "fresh_AA i = 0xAA"

definition msg_int16 :: dynamicmessage where
  "msg_int16 = (case dynmessage_put_field_and_value 2 msg0 (Some ''reading'') INT16_TYPE (Some (Int_obj 7))
                of Inr m \<Rightarrow> m | Inl e \<Rightarrow> msg0)"

definition msg_int64 :: dynamicmessage where
  "msg_int64 =
     (case dynmessage_put_field_and_value 2 msg0 (Some ''big_num'') INT64_TYPE
             (Some (Long_obj 0x1122334455667788)) of
        Inl e \<Rightarrow> msg0
      | Inr m \<Rightarrow>
          (case dynmessage_put_field_and_value 2 m (Some ''comment'') STRING_TYPE
                  (Some (String_obj ''abc'')) of
             Inr m' \<Rightarrow> m' | Inl e \<Rightarrow> msg0))"

text \<open>The message \<open>msg_int64\<close> with another value of its \<open>INT64_TYPE\<close> field.\<close>

definition msg_int64_b :: dynamicmessage where
  "msg_int64_b =
     (case dynmessage_put_field_and_value 2 msg0 (Some ''big_num'') INT64_TYPE
             (Some (Long_obj 0x1122334400000000)) of
        Inl e \<Rightarrow> msg0
      | Inr m \<Rightarrow>
          (case dynmessage_put_field_and_value 2 m (Some ''comment'') STRING_TYPE
                  (Some (String_obj ''abc'')) of
             Inr m' \<Rightarrow> m' | Inl e \<Rightarrow> msg0))"

text \<open>The 72 bytes that the serializer produces for both of them.\<close>

definition frame_int64 :: "byte list" where
  "frame_int64 =
     [0x3E, 0x3E, 0x3E, 0x3D,  0, 0, 0, 72,
      0, 0, 0, 3,  0x6D, 0x73, 0x67,
      0, 0, 0, 2,
      0, 0, 0, 27,  0, 0, 0, 7,  0x62, 0x69, 0x67, 0x5F, 0x6E, 0x75, 0x6D,
      0, 0, 0, 7,  0, 0, 0, 4,
      0x11, 0x22, 0x33, 0x44,
      0, 0, 0, 26,  0, 0, 0, 7,  0x63, 0x6F, 0x6D, 0x6D, 0x65, 0x6E, 0x74,
      0, 0, 0, 11,  0, 0, 0, 3,  0x61, 0x62, 0x63]"

text \<open>An input of four bytes: the start identifier and nothing else.\<close>

definition short_frame :: "byte list" where
  "short_frame = [0x3E, 0x3E, 0x3E, 0x3D]"

text \<open>
  A frame of 37 bytes for a message named \<open>msg\<close> with one sub-frame: the field \<open>b\<close>
  of type \<open>INT8_TYPE\<close> (ordinal 1) with the one value byte 7.
\<close>

definition frame_int8 :: "byte list" where
  "frame_int8 =
     [0x3E, 0x3E, 0x3E, 0x3D,  0, 0, 0, 37,
      0, 0, 0, 3,  0x6D, 0x73, 0x67,
      0, 0, 0, 1,
      0, 0, 0, 18,  0, 0, 0, 1,  0x62,  0, 0, 0, 1,  0, 0, 0, 1,  7]"

section \<open>The length formula of the specification\<close>

text \<open>
  The specification's \<open>fixed_size\<close>, \<open>value_size\<close>, \<open>field_length\<close> and
  \<open>calc_serialized_len\<close>, written from its words and compared below with what
  \<open>calc_dynmessage_serialized_len\<close> computes.
\<close>

definition spec_fixed_size :: "dyn_field_type \<Rightarrow> int" where
  "spec_fixed_size t =
     (if t = ENUMERATION_TYPE then 4
      else if t = INT16_TYPE then 2
      else if t = UNSIGNED_INT16_TYPE then 2
      else if t = INT32_TYPE then 4
      else if t = UNSIGNED_INT32_TYPE then 4
      else if t = INT64_TYPE then 8
      else if t = UNSIGNED_INT64_TYPE then 8
      else if t = FLOAT32_TYPE then 4
      else if t = FLOAT64_TYPE then 8
      else 0)"

definition spec_value_size :: "dyn_field \<Rightarrow> int" where
  "spec_value_size f =
     (if f_type f = STRING_TYPE
      then (case f_value f of Some (String_value s) \<Rightarrow> int (length s) | _ \<Rightarrow> 0)
      else spec_fixed_size (f_type f))"

definition spec_field_length :: "dyn_field \<Rightarrow> int" where
  "spec_field_length f =
     16 + (case f_name f of Some n \<Rightarrow> int (length n) | None \<Rightarrow> 0) + spec_value_size f"

definition spec_serialized_len :: "dynamicmessage \<Rightarrow> int" where
  "spec_serialized_len message =
     16 + (case m_name message of Some n \<Rightarrow> int (length n) | None \<Rightarrow> 0)
        + sum_list (map spec_field_length (stored_fields message))"


text \<open>Messages built from an enumeration, an unsigned 64-bit integer and a string.\<close>

definition msg_e :: dynamicmessage where
  "msg_e = (case dynmessage_put_field_and_value 2 msg0 (Some ''variant'') ENUMERATION_TYPE
                  (Some (Int_obj 3))
            of Inr m \<Rightarrow> m | Inl e \<Rightarrow> msg0)"

definition msg_eu :: dynamicmessage where
  "msg_eu = (case dynmessage_put_field_and_value 2 msg_e (Some ''time_stamp'') UNSIGNED_INT64_TYPE
                   (Some (Long_obj 1700000000))
             of Inr m \<Rightarrow> m | Inl e \<Rightarrow> msg_e)"

definition msg_eus :: dynamicmessage where
  "msg_eus = (case dynmessage_put_field_and_value 2 msg_eu (Some ''message_name'') STRING_TYPE
                    (Some (String_obj ''abc''))
              of Inr m \<Rightarrow> m | Inl e \<Rightarrow> msg_eu)"


section \<open>IEEE-754 values\<close>

text \<open>
  The finite values of a binary format with \<open>sb\<close> significand bits and \<open>eb\<close> exponent
  bits, as rational numbers.  The bias is \<open>2 ^ (eb - 1) - 1\<close>.  A normal value has a
  sign, a fraction \<open>m < 2 ^ sb\<close> and an exponent field \<open>E\<close> with \<open>1 \<le> E \<le> 2 ^ eb - 2\<close>,
  and is \<open>(1 + m / 2 ^ sb) * 2 ^ (E - bias)\<close> with its sign; a subnormal value has the
  exponent field 0 and is \<open>(m / 2 ^ sb) * 2 ^ (1 - bias)\<close> with its sign.  The unit in
  the last place of a value with the exponent field \<open>E\<close> is
  \<open>2 ^ (max E 1 - bias - sb)\<close>, and \<open>ieee_bits\<close> is the bit pattern made of the sign,
  the exponent field and the fraction.  binary32 has \<open>sb = 23\<close> and \<open>eb = 8\<close>, binary64
  has \<open>sb = 52\<close> and \<open>eb = 11\<close>.
\<close>

definition bias :: "nat \<Rightarrow> int" where
  "bias eb = 2 ^ (eb - 1) - 1"

definition times_pow2 :: "rat \<Rightarrow> int \<Rightarrow> rat" where
  "times_pow2 x e = (if 0 \<le> e then x * 2 ^ nat e else x / 2 ^ nat (- e))"

definition normal_value :: "nat \<Rightarrow> nat \<Rightarrow> bool \<Rightarrow> nat \<Rightarrow> nat \<Rightarrow> rat" where
  "normal_value sb eb neg m E =
     (if neg then - 1 else 1) * times_pow2 (1 + of_nat m / 2 ^ sb) (int E - bias eb)"

definition subnormal_value :: "nat \<Rightarrow> nat \<Rightarrow> bool \<Rightarrow> nat \<Rightarrow> rat" where
  "subnormal_value sb eb neg m =
     (if neg then - 1 else 1) * times_pow2 (of_nat m / 2 ^ sb) (1 - bias eb)"

definition ulp :: "nat \<Rightarrow> nat \<Rightarrow> nat \<Rightarrow> rat" where
  "ulp sb eb E = times_pow2 1 (int (max E 1) - bias eb - int sb)"

definition ieee_bits :: "nat \<Rightarrow> nat \<Rightarrow> bool \<Rightarrow> nat \<Rightarrow> nat \<Rightarrow> 64 word" where
  "ieee_bits sb eb neg m E =
     push_bit (sb + eb) (if neg then 1 else 0) OR push_bit sb (of_nat E) OR of_nat m"


section \<open>Properties of the primitive codec\<close>

lemma take_bit_split:
  "take_bit (m + n) (w :: 'a::len word) = take_bit m w OR push_bit m (take_bit n (drop_bit m w))"
  by (rule bit_word_eqI) (auto simp add: bit_simps)

lemma ucast_byte [simp]:
  "(ucast (ucast (w :: 'a::len word) :: byte) :: 'a word) = take_bit 8 w"
  by (rule bit_word_eqI) (auto simp add: bit_simps)

lemma take_bit_16: "take_bit 16 (w :: 'a::len word) = push_bit 8 (take_bit 8 (drop_bit 8 w)) OR take_bit 8 w"
  using take_bit_split [of 8 8 w] by (simp add: ac_simps)

lemma take_bit_32: "take_bit 32 (w :: 'a::len word) =
   push_bit 24 (take_bit 8 (drop_bit 24 w)) OR push_bit 16 (take_bit 8 (drop_bit 16 w))
   OR push_bit 8 (take_bit 8 (drop_bit 8 w)) OR take_bit 8 w"
  using take_bit_split [of 16 16 w] by (simp add: take_bit_16 push_bit_or ac_simps)

lemma take_bit_64: "take_bit 64 (w :: 'a::len word) =
   push_bit 56 (take_bit 8 (drop_bit 56 w)) OR push_bit 48 (take_bit 8 (drop_bit 48 w))
   OR push_bit 40 (take_bit 8 (drop_bit 40 w)) OR push_bit 32 (take_bit 8 (drop_bit 32 w))
   OR push_bit 24 (take_bit 8 (drop_bit 24 w)) OR push_bit 16 (take_bit 8 (drop_bit 16 w))
   OR push_bit 8 (take_bit 8 (drop_bit 8 w)) OR take_bit 8 w"
  using take_bit_split [of 32 32 w] by (simp add: take_bit_32 push_bit_or ac_simps)

lemma unpacku16_packi16: "unpacku16 (packi16 w @ rest) = Inr (take_bit 16 w)"
  by (simp add: packi16_def take_bit_16)

lemma unpacku32_packi32: "unpacku32 (packi32 w @ rest) = Inr (take_bit 32 w)"
  by (simp add: packi32_def take_bit_32)

lemma unpacku64_packi64: "unpacku64 (packi64 w @ rest) = Inr w"
proof -
  have "take_bit 64 w = w" by (simp add: take_bit_word_eq_self)
  then show ?thesis
    by (simp add: packi64_def take_bit_64)
qed

lemma sint_eq_uint_small:
  "uint (w :: 'a::len word) < 2 ^ (LENGTH('a) - 1) \<Longrightarrow> sint w = uint w"
proof -
  assume a: "uint w < 2 ^ (LENGTH('a) - 1)"
  have "- (2 ^ (LENGTH('a) - 1)) \<le> uint w"
    by (rule order_trans [of _ 0]) simp_all
  with a show ?thesis
    by (simp add: sint_uint signed_take_bit_int_eq_self)
qed

lemma signed_16:
  fixes w :: "32 word"
  assumes "uint w < 65536"
  shows "sint (if w \<le> 0x7fff then w else - 1 - (0xffff - w)) =
    (if uint w < 32768 then uint w else uint w - 65536)"
proof (cases "w \<le> 0x7fff")
  case True
  then have "uint w \<le> 32767" by (simp add: word_le_def)
  then show ?thesis using True by (simp add: sint_eq_uint_small)
next
  case False
  then have u: "32768 \<le> uint w" by (simp add: word_le_def)
  have s: "sint w = uint w" using assms by (simp add: sint_eq_uint_small)
  have "sint (0xffff - w) = 65535 - uint w"
    using assms u s by (simp add: sint_word_ariths signed_take_bit_int_eq_self)
  then have "sint (- 1 - (0xffff - w)) = uint w - 65536"
    using assms u s by (simp add: sint_word_ariths signed_take_bit_int_eq_self)
  then show ?thesis using False u by simp
qed

lemma signed_32:
  fixes w :: "64 word"
  assumes "uint w < 4294967296"
  shows "sint (if w \<le> 0x7fffffff then w else - 1 - (0xffffffff - w)) =
    (if uint w < 2147483648 then uint w else uint w - 4294967296)"
proof (cases "w \<le> 0x7fffffff")
  case True
  then have "uint w \<le> 2147483647" by (simp add: word_le_def)
  then show ?thesis using True by (simp add: sint_eq_uint_small)
next
  case False
  then have u: "2147483648 \<le> uint w" by (simp add: word_le_def)
  have s: "sint w = uint w" using assms by (simp add: sint_eq_uint_small)
  have "sint (0xffffffff - w) = 4294967295 - uint w"
    using assms u s by (simp add: sint_word_ariths signed_take_bit_int_eq_self)
  then have "sint (- 1 - (0xffffffff - w)) = uint w - 4294967296"
    using assms u s by (simp add: sint_word_ariths signed_take_bit_int_eq_self)
  then show ?thesis using False u by simp
qed

lemma signed_64:
  fixes w :: "64 word"
  shows "(if w \<le> 0x7fffffffffffffff then w else - 1 - (0xffffffffffffffff - w)) = w"
  by simp

lemma sext_int:
  assumes "0 \<le> u" "u < 2 * 2 ^ n"
  shows "signed_take_bit n (u :: int) = (if u < 2 ^ n then u else u - 2 * 2 ^ n)"
proof (cases "u < 2 ^ n")
  case True
  with assms show ?thesis by (simp add: signed_take_bit_int_eq_self)
next
  case False
  have "(u + 2 ^ n) mod (2 * 2 ^ n) = ((u - 2 ^ n) + 2 * 2 ^ n) mod (2 * 2 ^ n)"
    by (simp add: algebra_simps)
  also have "\<dots> = (u - 2 ^ n) mod (2 * 2 ^ n)" by (rule mod_add_self2)
  also have "\<dots> = u - 2 ^ n" using False assms by (simp add: mod_pos_pos_trivial)
  finally show ?thesis using False
    by (simp add: signed_take_bit_eq_take_bit_shift take_bit_eq_mod)
qed

lemma uint_take_bit_16: "uint (take_bit 16 (word_of_int x :: 32 word)) = x mod 65536"
proof -
  have "uint (take_bit 16 (word_of_int x :: 32 word)) = take_bit 16 (take_bit 32 x)"
    by (simp only: unsigned_take_bit_eq uint_word_of_int_eq len_num0 len_num1 len_bit0 mult_numeral_left_semiring_numeral)
       simp
  also have "\<dots> = take_bit 16 x" by simp
  also have "\<dots> = x mod 65536" by (simp add: take_bit_eq_mod)
  finally show ?thesis .
qed

lemma uint_take_bit_32: "uint (take_bit 32 (word_of_int x :: 64 word)) = x mod 4294967296"
proof -
  have "uint (take_bit 32 (word_of_int x :: 64 word)) = take_bit 32 (take_bit 64 x)"
    by (simp only: unsigned_take_bit_eq uint_word_of_int_eq) simp
  also have "\<dots> = take_bit 32 x" by simp
  also have "\<dots> = x mod 4294967296" by (simp add: take_bit_eq_mod)
  finally show ?thesis .
qed


lemma packi16_signed:
  assumes "- 32768 \<le> x" "x < 32768"
  shows "\<exists>v. unpacki16 (packi16 (word_of_int x)) = Inr v \<and> sint v = x"
proof -
  let ?w = "take_bit 16 (word_of_int x :: 32 word)"
  have u: "uint ?w = x mod 65536" by (rule uint_take_bit_16)
  then have b: "uint ?w < 65536" by simp
  have m: "x mod 65536 = (if 0 \<le> x then x else x + 65536)"
  proof (cases "0 \<le> x")
    case True
    with assms show ?thesis by (simp add: mod_pos_pos_trivial)
  next
    case False
    have "x mod 65536 = (x + 65536) mod 65536" by simp
    also have "\<dots> = x + 65536" using False assms by (intro mod_pos_pos_trivial) simp_all
    finally have "x mod 65536 = x + 65536" .
    with False show ?thesis by (simp only: if_False)
  qed
  have "unpacki16 (packi16 (word_of_int x)) =
      Inr (if ?w \<le> 0x7fff then ?w else - 1 - (0xffff - ?w))"
    by (simp add: packi16_def take_bit_16 Let_def)
  moreover have "sint (if ?w \<le> 0x7fff then ?w else - 1 - (0xffff - ?w)) = x"
    using assms by (simp only: signed_16 [OF b] u m) auto
  ultimately show ?thesis by blast
qed

lemma uint_lt_take_bit:
  "take_bit n (u :: 'a::len word) = u \<Longrightarrow> uint u < 2 ^ n"
proof -
  assume "take_bit n u = u"
  then have "uint u = take_bit n (uint u)" by (metis unsigned_take_bit_eq)
  also have "\<dots> < 2 ^ n" by simp
  finally show ?thesis .
qed

lemma bytes2_bound:
  "uint (push_bit 8 (ucast (b0 :: byte)) OR ucast (b1 :: byte) :: 32 word) < 65536"
proof -
  have "take_bit 16 (push_bit 8 (ucast b0) OR ucast b1 :: 32 word) = push_bit 8 (ucast b0) OR ucast b1"
    by (rule bit_word_eqI) (auto simp add: bit_simps dest: bit_imp_le_length)
  from uint_lt_take_bit [OF this] show ?thesis by simp
qed

lemma bytes4_bound:
  "uint (push_bit 24 (ucast (b0 :: byte)) OR push_bit 16 (ucast (b1 :: byte))
       OR push_bit 8 (ucast (b2 :: byte)) OR ucast (b3 :: byte) :: 64 word) < 4294967296"
proof -
  have "take_bit 32 (push_bit 24 (ucast b0) OR push_bit 16 (ucast b1) OR push_bit 8 (ucast b2) OR ucast b3 :: 64 word)
       = push_bit 24 (ucast b0) OR push_bit 16 (ucast b1) OR push_bit 8 (ucast b2) OR ucast b3"
    by (rule bit_word_eqI) (auto simp add: bit_simps dest: bit_imp_le_length)
  from uint_lt_take_bit [OF this] show ?thesis by simp
qed

lemma mod_signed_range:
  assumes "- h \<le> x" "x < h"
  shows "x mod (2 * h) = (if 0 \<le> x then x else x + 2 * (h :: int))"
proof (cases "0 \<le> x")
  case True
  with assms show ?thesis by (simp add: mod_pos_pos_trivial)
next
  case False
  have "x mod (2 * h) = (x + 2 * h) mod (2 * h)" by simp
  also have "\<dots> = x + 2 * h" using False assms by (intro mod_pos_pos_trivial) simp_all
  finally have "x mod (2 * h) = x + 2 * h" .
  with False show ?thesis by (simp only: if_False)
qed

lemma packi32_signed:
  assumes "- 2147483648 \<le> x" "x < 2147483648"
  shows "\<exists>v. unpacki32 (packi32 (word_of_int x)) = Inr v \<and> sint v = x"
proof -
  let ?w = "take_bit 32 (word_of_int x :: 64 word)"
  have u: "uint ?w = x mod 4294967296" by (rule uint_take_bit_32)
  then have b: "uint ?w < 4294967296" by simp
  have m: "x mod 4294967296 = (if 0 \<le> x then x else x + 4294967296)"
    using mod_signed_range [of 2147483648 x] assms by simp
  have "unpacki32 (packi32 (word_of_int x)) =
      Inr (if ?w \<le> 0x7fffffff then ?w else - 1 - (0xffffffff - ?w))"
    by (simp add: packi32_def take_bit_32 Let_def)
  moreover have "sint (if ?w \<le> 0x7fffffff then ?w else - 1 - (0xffffffff - ?w)) = x"
    using assms by (simp only: signed_32 [OF b] u m) auto
  ultimately show ?thesis by blast
qed

lemma packi64_signed:
  assumes "- 9223372036854775808 \<le> x" "x < 9223372036854775808"
  shows "\<exists>v. unpacki64 (packi64 (word_of_int x)) = Inr v \<and> sint v = x"
proof -
  have "take_bit 64 (word_of_int x :: 64 word) = word_of_int x" by (simp add: take_bit_word_eq_self)
  then have "unpacki64 (packi64 (word_of_int x)) = Inr (word_of_int x)"
    by (simp add: packi64_def take_bit_64 Let_def)
  moreover have "sint (word_of_int x :: 64 word) = x"
    using assms by (simp add: sint_sbintrunc' signed_take_bit_int_eq_self)
  ultimately show ?thesis by blast
qed

lemma packi16_unsigned:
  assumes "0 \<le> x" "x < 65536"
  shows "\<exists>v. unpacku16 (packi16 (word_of_int x)) = Inr v \<and> uint v = x"
  using assms unpacku16_packi16 [of "word_of_int x" "[]"]
  by (simp add: uint_take_bit_16 mod_pos_pos_trivial)

lemma packi32_unsigned:
  assumes "0 \<le> x" "x < 4294967296"
  shows "\<exists>v. unpacku32 (packi32 (word_of_int x)) = Inr v \<and> uint v = x"
  using assms unpacku32_packi32 [of "word_of_int x" "[]"]
  by (simp add: uint_take_bit_32 mod_pos_pos_trivial)

lemma packi64_unsigned:
  assumes "0 \<le> x" "x < 18446744073709551616"
  shows "\<exists>v. unpacku64 (packi64 (word_of_int x)) = Inr v \<and> uint v = x"
  using assms unpacku64_packi64 [of "word_of_int x" "[]"]
  by (simp add: uint_word_of_int_eq take_bit_eq_mod mod_pos_pos_trivial)

lemma unpacki16_sign_extends:
  assumes "unpacku16 bs = Inr u"
  shows "\<exists>s. unpacki16 bs = Inr s \<and> sint s = signed_take_bit 15 (uint u)"
proof -
  from assms obtain b0 b1 rest where bs: "bs = b0 # b1 # rest"
    by (cases bs rule: unpacku16.cases) auto
  with assms have u: "u = push_bit 8 (ucast b0) OR ucast b1" by simp
  have b: "uint u < 65536" unfolding u by (rule bytes2_bound)
  have "signed_take_bit 15 (uint u) = (if uint u < 32768 then uint u else uint u - 65536)"
    using sext_int [of "uint u" 15] b by simp
  with signed_16 [OF b]
  have "sint (if u \<le> 0x7fff then u else - 1 - (0xffff - u)) = signed_take_bit 15 (uint u)"
    by (simp only:)
  moreover have "unpacki16 bs = Inr (if u \<le> 0x7fff then u else - 1 - (0xffff - u))"
    by (simp add: bs u Let_def)
  ultimately show ?thesis by blast
qed

lemma unpacki32_sign_extends:
  assumes "unpacku32 bs = Inr u"
  shows "\<exists>s. unpacki32 bs = Inr s \<and> sint s = signed_take_bit 31 (uint u)"
proof -
  from assms obtain b0 b1 b2 b3 rest where bs: "bs = b0 # b1 # b2 # b3 # rest"
    by (cases bs rule: unpacku32.cases) auto
  with assms have u: "u = push_bit 24 (ucast b0) OR push_bit 16 (ucast b1) OR push_bit 8 (ucast b2) OR ucast b3" by simp
  have b: "uint u < 4294967296" unfolding u by (rule bytes4_bound)
  have "signed_take_bit 31 (uint u) = (if uint u < 2147483648 then uint u else uint u - 4294967296)"
    using sext_int [of "uint u" 31] b by simp
  with signed_32 [OF b]
  have "sint (if u \<le> 0x7fffffff then u else - 1 - (0xffffffff - u)) = signed_take_bit 31 (uint u)"
    by (simp only:)
  moreover have "unpacki32 bs = Inr (if u \<le> 0x7fffffff then u else - 1 - (0xffffffff - u))"
    by (simp add: bs u Let_def)
  ultimately show ?thesis by blast
qed

lemma unpacki64_sign_extends:
  assumes "unpacku64 bs = Inr u"
  shows "\<exists>s. unpacki64 bs = Inr s \<and> sint s = signed_take_bit 63 (uint u)"
proof -
  from assms obtain b0 b1 b2 b3 b4 b5 b6 b7 rest
    where bs: "bs = b0 # b1 # b2 # b3 # b4 # b5 # b6 # b7 # rest"
    by (cases bs rule: unpacku64.cases) auto
  with assms have "unpacki64 bs = Inr u" by (simp add: Let_def)
  then show ?thesis by (simp add: sint_uint)
qed

text \<open>
  Claim C4.  For every integer in the range of its width, signed or unsigned, packing
  it and unpacking the bytes gives the integer back (the signed value is passed to
  the packer through the usual conversion to the unsigned parameter type), and the
  signed unpackers return the two's-complement sign extension of the big-endian field
  that the unsigned unpackers return.
\<close>

theorem integer_pack_unpack_round_trip:
  "(- 32768 \<le> x \<and> x < 32768 \<longrightarrow>
      (\<exists>v. unpacki16 (packi16 (word_of_int x)) = Inr v \<and> sint v = x)) \<and>
   (0 \<le> x \<and> x < 65536 \<longrightarrow>
      (\<exists>v. unpacku16 (packi16 (word_of_int x)) = Inr v \<and> uint v = x)) \<and>
   (- 2147483648 \<le> x \<and> x < 2147483648 \<longrightarrow>
      (\<exists>v. unpacki32 (packi32 (word_of_int x)) = Inr v \<and> sint v = x)) \<and>
   (0 \<le> x \<and> x < 4294967296 \<longrightarrow>
      (\<exists>v. unpacku32 (packi32 (word_of_int x)) = Inr v \<and> uint v = x)) \<and>
   (- 9223372036854775808 \<le> x \<and> x < 9223372036854775808 \<longrightarrow>
      (\<exists>v. unpacki64 (packi64 (word_of_int x)) = Inr v \<and> sint v = x)) \<and>
   (0 \<le> x \<and> x < 18446744073709551616 \<longrightarrow>
      (\<exists>v. unpacku64 (packi64 (word_of_int x)) = Inr v \<and> uint v = x)) \<and>
   (unpacku16 bs = Inr u16 \<longrightarrow>
      (\<exists>s. unpacki16 bs = Inr s \<and> sint s = signed_take_bit 15 (uint u16))) \<and>
   (unpacku32 bs = Inr u32 \<longrightarrow>
      (\<exists>s. unpacki32 bs = Inr s \<and> sint s = signed_take_bit 31 (uint u32))) \<and>
   (unpacku64 bs = Inr u64 \<longrightarrow>
      (\<exists>s. unpacki64 bs = Inr s \<and> sint s = signed_take_bit 63 (uint u64)))"
  using packi16_signed [of x] packi16_unsigned [of x] packi32_signed [of x]
    packi32_unsigned [of x] packi64_signed [of x] packi64_unsigned [of x]
    unpacki16_sign_extends [of bs u16] unpacki32_sign_extends [of bs u32]
    unpacki64_sign_extends [of bs u64]
  by blast

theorem integer_pack_unpack_round_trip_witness:
  "(\<exists>v. unpacki16 (packi16 (word_of_int (- 300))) = Inr v \<and> sint v = - 300) \<and>
   (\<exists>v. unpacku16 (packi16 (word_of_int 40000)) = Inr v \<and> uint v = 40000) \<and>
   (\<exists>v. unpacki32 (packi32 (word_of_int (- 300))) = Inr v \<and> sint v = - 300) \<and>
   (\<exists>v. unpacku32 (packi32 (word_of_int 40000)) = Inr v \<and> uint v = 40000) \<and>
   (\<exists>v. unpacki64 (packi64 (word_of_int (- 300))) = Inr v \<and> sint v = - 300) \<and>
   (\<exists>v. unpacku64 (packi64 (word_of_int 40000)) = Inr v \<and> uint v = 40000) \<and>
   (\<exists>s. unpacki16 [0xFE, 0xD4] = Inr s \<and> sint s = - 300) \<and>
   (\<exists>s. unpacki32 [0xFF, 0xFF, 0xFE, 0xD4] = Inr s \<and> sint s = - 300) \<and>
   (\<exists>s. unpacki64 [0xFF, 0xFF, 0xFF, 0xFF, 0xFF, 0xFF, 0xFE, 0xD4] = Inr s \<and> sint s = - 300)"
proof -
  have a: "unpacku16 [0xFE, 0xD4] = Inr 0xFED4" by simp
  have b: "unpacku32 [0xFF, 0xFF, 0xFE, 0xD4] = Inr 0xFFFFFED4" by simp
  have c: "unpacku64 [0xFF, 0xFF, 0xFF, 0xFF, 0xFF, 0xFF, 0xFE, 0xD4] = Inr 0xFFFFFFFFFFFFFED4"
    by simp
  show ?thesis
    using integer_pack_unpack_round_trip [of "- 300" "[0xFE, 0xD4]" "0xFED4"]
      integer_pack_unpack_round_trip [of 40000]
      integer_pack_unpack_round_trip [of 0 "[0xFF, 0xFF, 0xFE, 0xD4]" _ "0xFFFFFED4"]
      integer_pack_unpack_round_trip
        [of 0 "[0xFF, 0xFF, 0xFF, 0xFF, 0xFF, 0xFF, 0xFE, 0xD4]" _ _ "0xFFFFFFFFFFFFFED4"]
      a b c
    by simp
qed

section \<open>Properties of the hash map\<close>













lemma find_entry_Some:
  "entry_of k es = Some e \<Longrightarrow> e \<in> set es \<and> key e = k"
  by (induction es) (auto split: if_splits)



























lemma all_entries_size [simp]: "all_entries (m\<lparr>size_m := s\<rparr>) = all_entries m"
  by (simp add: all_entries_def)

















section \<open>Properties of the IEEE-754 conversion\<close>

lemma norm_down_pow:
  "1 \<le> c \<Longrightarrow> c < 2 \<Longrightarrow> norm_down (c * 2 ^ n) sh = (c, sh + int n)"
proof (induction n arbitrary: sh)
  case 0
  then show ?case by (subst norm_down.simps) simp
next
  case (Suc n)
  have "(2::rat) \<le> 1 * 2 ^ Suc n" by simp
  also have "\<dots> \<le> c * 2 ^ Suc n" using Suc.prems(1) by (intro mult_right_mono) simp_all
  finally have ge: "2 \<le> c * 2 ^ Suc n" .
  have "norm_down (c * 2 ^ Suc n) sh = norm_down (c * 2 ^ Suc n / 2) (sh + 1)"
    using ge by (subst norm_down.simps) simp
  also have "c * 2 ^ Suc n / 2 = c * 2 ^ n" by simp
  also have "norm_down (c * 2 ^ n) (sh + 1) = (c, sh + 1 + int n)"
    by (rule Suc.IH [OF Suc.prems])
  finally show ?case by simp
qed

lemma norm_down_small: "x < 2 \<Longrightarrow> norm_down x sh = (x, sh)"
  by (subst norm_down.simps) simp

lemma norm_up_pow:
  "1 \<le> c \<Longrightarrow> c < 2 \<Longrightarrow> norm_up (c / 2 ^ n) sh = Inr (c, sh - int n)"
proof (induction n arbitrary: sh)
  case 0
  then show ?case by (subst norm_up.simps) simp
next
  case (Suc n)
  have pos: "0 < c / 2 ^ Suc n" using Suc.prems(1) by simp
  have "(2::rat) \<le> 2 ^ Suc n" by simp
  then have "c < 2 ^ Suc n" using Suc.prems(2) by (rule less_le_trans [rotated])
  then have lt: "c / 2 ^ Suc n < 1" by (simp only: divide_less_eq_1_pos zero_less_power zero_less_numeral)
  have "norm_up (c / 2 ^ Suc n) sh = norm_up (c / 2 ^ Suc n * 2) (sh - 1)"
    using pos lt by (subst norm_up.simps) simp
  also have "c / 2 ^ Suc n * 2 = c / 2 ^ n" by simp
  also have "norm_up (c / 2 ^ n) (sh - 1) = Inr (c, sh - 1 - int n)"
    by (rule Suc.IH [OF Suc.prems])
  finally show ?case by simp
qed

lemma normalize_times_pow2:
  assumes "1 \<le> c" "c < 2"
  shows "(case norm_down (times_pow2 c e) 0 of (fnorm, shift) \<Rightarrow> norm_up fnorm shift) = Inr (c, e)"
proof (cases "0 \<le> e")
  case True
  have "norm_down (c * 2 ^ nat e) 0 = (c, 0 + int (nat e))" by (rule norm_down_pow [OF assms])
  moreover have "norm_up c e = Inr (c, e)" using norm_up_pow [OF assms, of 0 e] by simp
  ultimately show ?thesis using True by (simp add: times_pow2_def)
next
  case False
  have "c / 2 ^ nat (- e) \<le> c / 1" by (intro divide_left_mono) (use assms in simp_all)
  then have "c / 2 ^ nat (- e) < 2" using assms(2) by simp
  then have "norm_down (c / 2 ^ nat (- e)) 0 = (c / 2 ^ nat (- e), 0)" by (rule norm_down_small)
  moreover have "norm_up (c / 2 ^ nat (- e)) 0 = Inr (c, 0 - int (nat (- e)))"
    by (rule norm_up_pow [OF assms])
  ultimately show ?thesis using False by (simp add: times_pow2_def)
qed

lemma significand_floor:
  assumes "m < 2 ^ sb"
  shows "\<lfloor>(1 + of_nat m / 2 ^ sb - 1) * (2 ^ sb + 1 / 2 :: rat)\<rfloor> = int m"
proof -
  have e: "(1 + of_nat m / 2 ^ sb - 1) * (2 ^ sb + 1 / 2 :: rat) = of_nat m + of_nat m / (2 * 2 ^ sb)"
    by (simp add: field_simps)
  have "(of_nat m :: rat) < of_nat (2 ^ sb)" using assms by (simp only: of_nat_less_iff)
  then have lt: "(of_nat m :: rat) < 2 ^ sb" by simp
  have "(2::rat) ^ sb \<le> 2 * 2 ^ sb" by simp
  with lt have "(of_nat m :: rat) < 2 * 2 ^ sb" by (rule less_le_trans)
  then have l: "(of_nat m :: rat) / (2 * 2 ^ sb) < 1"
    by (simp only: divide_less_eq_1_pos zero_less_power zero_less_numeral mult_pos_pos)
  have g: "0 \<le> (of_nat m :: rat) / (2 * 2 ^ sb)" by simp
  show ?thesis
    unfolding e by (rule floor_unique) (use l g in simp_all)
qed

lemma times_pow2_pos: "0 < x \<Longrightarrow> 0 < times_pow2 x e"
  by (simp add: times_pow2_def)

lemma scale_up_pow: "scale_up n r = r * 2 ^ n"
  by (induction n arbitrary: r) simp_all

lemma scale_down_pow: "scale_down n r = r / 2 ^ n"
  by (induction n arbitrary: r) simp_all


lemma push_bit_1_mask: "(push_bit n 1 - 1 :: 'a::len word) = mask n"
  by (simp add: mask_eq_exp_minus_1 push_bit_of_1)

lemma fields_32:
  fixes Ew M :: "64 word" and neg :: bool
  defines "w \<equiv> push_bit 31 (if neg then 1 else 0) OR push_bit 23 (take_bit 8 Ew) OR take_bit 23 M"
  shows "w AND mask 23 = take_bit 23 M"
    and "drop_bit 23 w AND mask 8 = take_bit 8 Ew"
    and "drop_bit 31 w AND 1 = (if neg then 1 else 0)"
proof -
  show "w AND mask 23 = take_bit 23 M"
    unfolding w_def by (rule bit_word_eqI) (auto simp add: bit_simps)
  show "drop_bit 23 w AND mask 8 = take_bit 8 Ew"
    unfolding w_def by (rule bit_word_eqI) (auto simp add: bit_simps)
  show "drop_bit 31 w AND 1 = (if neg then 1 else 0)"
    unfolding w_def by (rule bit_word_eqI) (auto simp add: bit_simps)
qed

lemma fields_64:
  fixes Ew M :: "64 word" and neg :: bool
  defines "w \<equiv> push_bit 63 (if neg then 1 else 0) OR push_bit 52 (take_bit 11 Ew) OR take_bit 52 M"
  shows "w AND mask 52 = take_bit 52 M"
    and "drop_bit 52 w AND mask 11 = take_bit 11 Ew"
    and "drop_bit 63 w AND 1 = (if neg then 1 else 0)"
proof -
  show "w AND mask 52 = take_bit 52 M"
    unfolding w_def by (rule bit_word_eqI) (auto simp add: bit_simps)
  show "drop_bit 52 w AND mask 11 = take_bit 11 Ew"
    unfolding w_def by (rule bit_word_eqI) (auto simp add: bit_simps)
  show "drop_bit 63 w AND 1 = (if neg then 1 else 0)"
    unfolding w_def by (rule bit_word_eqI) (auto simp add: bit_simps)
qed

lemma of_nat_take_bit_self:
  "m < 2 ^ n \<Longrightarrow> (of_nat m :: 64 word) = take_bit n (of_nat m)"
  by (simp add: take_bit_of_nat take_bit_nat_eq_self)

lemma uint_of_nat_small:
  "m < 2 ^ 64 \<Longrightarrow> uint (of_nat m :: 64 word) = int m"
  by (simp add: uint_nat unat_of_nat take_bit_nat_eq_self)

lemma sint_word_of_int_64: "sint (word_of_int x :: 64 word) = signed_take_bit 63 x"
  by (simp add: sint_sbintrunc')

lemma sint_exp_diff:
  assumes "E < 2 ^ 20" "b < 2 ^ 20"
  shows "sint (of_nat E - of_nat b :: 64 word) = int E - int b"
proof -
  have "(of_nat E - of_nat b :: 64 word) = word_of_int (int E - int b)" by simp
  then have "sint (of_nat E - of_nat b :: 64 word) = signed_take_bit 63 (int E - int b)"
    by (simp only: sint_word_of_int_64)
  moreover have "signed_take_bit 63 (int E - int b) = int E - int b"
    using assms by (intro signed_take_bit_int_eq_self) simp_all
  ultimately show ?thesis by simp
qed


lemma normalize_obtain:
  assumes "1 \<le> c" "c < 2"
  shows "\<exists>a b. norm_down (times_pow2 c e) 0 = (a, b) \<and> norm_up a b = Inr (c, e)"
  using normalize_times_pow2 [OF assms, of e]
  by (cases "norm_down (times_pow2 c e) 0") simp

lemma pack754_gen:
  assumes "f \<noteq> 0" "(f < 0) = neg"
    and "norm_down (if f < 0 then - f else f) 0 = (a, b)" "norm_up a b = Inr (c, e)"
    and "\<lfloor>(c - 1) * (2 ^ (bits - eb - 1) + 1 / 2)\<rfloor> = sg"
  shows "pack754 f bits eb =
     Inr (push_bit (bits - 1) (if neg then 1 else 0)
          OR push_bit (bits - eb - 1) (word_of_int (e + (2 ^ (eb - 1) - 1)))
          OR word_of_int sg)"
  using assms by (auto simp add: pack754_def Let_def)

lemma fraction_bounds:
  assumes "m < 2 ^ sb"
  shows "(1::rat) \<le> 1 + of_nat m / 2 ^ sb" and "1 + of_nat m / 2 ^ sb < (2::rat)"
proof -
  show "(1::rat) \<le> 1 + of_nat m / 2 ^ sb" by simp
  have "(of_nat m :: rat) < of_nat (2 ^ sb)" using assms by (simp only: of_nat_less_iff)
  then have "(of_nat m :: rat) < 2 ^ sb" by simp
  then have "(of_nat m :: rat) / 2 ^ sb < 1"
    by (simp only: divide_less_eq_1_pos zero_less_power zero_less_numeral)
  then show "1 + of_nat m / 2 ^ sb < (2::rat)" by simp
qed

lemma pack754_normal:
  assumes "m < 2 ^ (bits - eb - 1)"
  shows "pack754 (normal_value (bits - eb - 1) eb neg m E) bits eb =
     Inr (push_bit (bits - 1) (if neg then 1 else 0)
          OR push_bit (bits - eb - 1) (of_nat E) OR of_nat m)"
proof -
  let ?sb = "bits - eb - 1"
  define c :: rat where "c = 1 + of_nat m / 2 ^ ?sb"
  define e where "e = int E - bias eb"
  define x where "x = times_pow2 c e"
  define f where "f = (if neg then - 1 else 1) * x"
  have c: "1 \<le> c" "c < 2" unfolding c_def by (rule fraction_bounds [OF assms])+
  have xpos: "0 < x" unfolding x_def using c by (intro times_pow2_pos) simp
  have f0: "f \<noteq> 0" and fn: "(f < 0) = neg" and fa: "(if f < 0 then - f else f) = x"
    using xpos by (auto simp add: f_def)
  from normalize_obtain [OF c, of e]
  obtain a b where ab: "norm_down x 0 = (a, b)" "norm_up a b = Inr (c, e)"
    unfolding x_def by blast
  have sg: "\<lfloor>(c - 1) * (2 ^ ?sb + 1 / 2)\<rfloor> = int m"
    unfolding c_def by (rule significand_floor [OF assms])
  have ex: "e + (2 ^ (eb - 1) - 1) = int E" by (simp add: e_def bias_def)
  have "pack754 f bits eb =
     Inr (push_bit (bits - 1) (if neg then 1 else 0)
          OR push_bit ?sb (word_of_int (e + (2 ^ (eb - 1) - 1)))
          OR word_of_int (int m))"
    by (rule pack754_gen [OF f0 fn _ ab(2) sg]) (simp only: fa ab(1))
  moreover have "f = normal_value ?sb eb neg m E"
    by (simp add: f_def x_def c_def e_def normal_value_def)
  ultimately show ?thesis by (simp only: ex of_int_of_nat_eq)
qed


lemma times_pow2_cases:
  "times_pow2 x e = (if 0 < e then scale_up (nat e) x else scale_down (nat (- e)) x)"
  by (cases "e = 0") (auto simp add: times_pow2_def scale_up_pow scale_down_pow)

lemma unpack754_gen:
  assumes "i \<noteq> 0"
    and "i AND (push_bit (bits - eb - 1) 1 - 1) = M"
    and "drop_bit (bits - eb - 1) i AND (push_bit eb 1 - 1) = Ew"
    and "drop_bit (bits - 1) i AND 1 = Sg"
    and "of_int (uint M) / of_int (uint (push_bit (bits - eb - 1) 1 :: 64 word)) + 1 = (c :: rat)"
    and "sint (Ew - ucast (push_bit (eb - 1) 1 - 1 :: 32 word)) = e"
  shows "unpack754 i bits eb = times_pow2 c e * (if Sg \<noteq> 0 then - 1 else 1)"
  using assms by (simp add: unpack754_def Let_def times_pow2_cases)

lemma unpack754_32_normal:
  assumes "m < 2 ^ 23" "1 \<le> E" "E \<le> 254"
  shows "unpack754_32 (ieee_bits 23 8 neg m E) = normal_value 23 8 neg m E"
proof -
  define w where "w = ieee_bits 23 8 neg m E"
  have M: "(of_nat m :: 64 word) = take_bit 23 (of_nat m)"
    by (rule of_nat_take_bit_self [OF assms(1)])
  have "E < 2 ^ 8" using assms(3) by simp
  then have Ew: "(of_nat E :: 64 word) = take_bit 8 (of_nat E)" by (rule of_nat_take_bit_self)
  have w': "w = push_bit 31 (if neg then 1 else 0) OR push_bit 23 (take_bit 8 (of_nat E))
      OR take_bit 23 (of_nat m)"
    unfolding w_def ieee_bits_def using M Ew by simp
  have f1: "w AND mask 23 = of_nat m"
    unfolding w' using fields_32(1) [of neg "of_nat E" "of_nat m"] M by simp
  have f2: "drop_bit 23 w AND mask 8 = of_nat E"
    unfolding w' using fields_32(2) [of neg "of_nat E" "of_nat m"] Ew by simp
  have f3: "drop_bit 31 w AND 1 = (if neg then 1 else 0)"
    unfolding w' using fields_32(3) [of neg "of_nat E" "of_nat m"] by simp
  have um: "uint (of_nat m :: 64 word) = int m"
    using assms(1) by (intro uint_of_nat_small) simp
  have uE: "unat (of_nat E :: 64 word) = E"
    using assms(3) by (simp add: unat_of_nat take_bit_nat_eq_self)
  have nz: "w \<noteq> 0"
  proof
    assume "w = 0"
    then have "(of_nat E :: 64 word) = 0" using f2 by simp
    then have "unat (of_nat E :: 64 word) = 0" by simp
    then show False using uE assms(2) by simp
  qed
  have n1: "(32::nat) - 8 - 1 = 23" "(32::nat) - 1 = 31" "(8::nat) - 1 = 7" by simp_all
  have g1: "w AND (push_bit (32 - 8 - 1) 1 - 1) = of_nat m"
    by (simp only: n1 push_bit_1_mask f1)
  have g2: "drop_bit (32 - 8 - 1) w AND (push_bit 8 1 - 1) = of_nat E"
    by (simp only: n1 push_bit_1_mask f2)
  have g3: "drop_bit (32 - 1) w AND 1 = (if neg then 1 else 0)"
    by (simp only: n1 f3)
  have g4: "of_int (uint (of_nat m :: 64 word)) / of_int (uint (push_bit (32 - 8 - 1) 1 :: 64 word)) + 1
      = (1 + of_nat m / 2 ^ 23 :: rat)"
    by (simp add: um)
  have g5: "sint (of_nat E - ucast (push_bit (8 - 1) 1 - 1 :: 32 word) :: 64 word) = int E - bias 8"
    using sint_exp_diff [of E 127] assms(3) by (simp add: bias_def)
  have "unpack754 w 32 8 = times_pow2 (1 + of_nat m / 2 ^ 23) (int E - bias 8)
      * (if (if neg then 1 else 0 :: 64 word) \<noteq> 0 then - 1 else 1)"
    by (rule unpack754_gen [OF nz g1 g2 g3 g4 g5])
  then show ?thesis
    by (simp add: unpack754_32_def w_def normal_value_def)
qed

lemma unpack754_64_normal:
  assumes "m < 2 ^ 52" "1 \<le> E" "E \<le> 2046"
  shows "unpack754_64 (ieee_bits 52 11 neg m E) = normal_value 52 11 neg m E"
proof -
  define w where "w = ieee_bits 52 11 neg m E"
  have M: "(of_nat m :: 64 word) = take_bit 52 (of_nat m)"
    by (rule of_nat_take_bit_self [OF assms(1)])
  have "E < 2 ^ 11" using assms(3) by simp
  then have Ew: "(of_nat E :: 64 word) = take_bit 11 (of_nat E)" by (rule of_nat_take_bit_self)
  have w': "w = push_bit 63 (if neg then 1 else 0) OR push_bit 52 (take_bit 11 (of_nat E))
      OR take_bit 52 (of_nat m)"
    unfolding w_def ieee_bits_def using M Ew by simp
  have f1: "w AND mask 52 = of_nat m"
    unfolding w' using fields_64(1) [of neg "of_nat E" "of_nat m"] M by simp
  have f2: "drop_bit 52 w AND mask 11 = of_nat E"
    unfolding w' using fields_64(2) [of neg "of_nat E" "of_nat m"] Ew by simp
  have f3: "drop_bit 63 w AND 1 = (if neg then 1 else 0)"
    unfolding w' using fields_64(3) [of neg "of_nat E" "of_nat m"] by simp
  have um: "uint (of_nat m :: 64 word) = int m"
    using assms(1) by (intro uint_of_nat_small) simp
  have uE: "unat (of_nat E :: 64 word) = E"
    using assms(3) by (simp add: unat_of_nat take_bit_nat_eq_self)
  have nz: "w \<noteq> 0"
  proof
    assume "w = 0"
    then have "(of_nat E :: 64 word) = 0" using f2 by simp
    then have "unat (of_nat E :: 64 word) = 0" by simp
    then show False using uE assms(2) by simp
  qed
  have n1: "(64::nat) - 11 - 1 = 52" "(64::nat) - 1 = 63" "(11::nat) - 1 = 10" by simp_all
  have g1: "w AND (push_bit (64 - 11 - 1) 1 - 1) = of_nat m"
    by (simp only: n1 push_bit_1_mask f1)
  have g2: "drop_bit (64 - 11 - 1) w AND (push_bit 11 1 - 1) = of_nat E"
    by (simp only: n1 push_bit_1_mask f2)
  have g3: "drop_bit (64 - 1) w AND 1 = (if neg then 1 else 0)"
    by (simp only: n1 f3)
  have g4: "of_int (uint (of_nat m :: 64 word)) / of_int (uint (push_bit (64 - 11 - 1) 1 :: 64 word)) + 1
      = (1 + of_nat m / 2 ^ 52 :: rat)"
    by (simp add: um)
  have g5: "sint (of_nat E - ucast (push_bit (11 - 1) 1 - 1 :: 32 word) :: 64 word) = int E - bias 11"
    using sint_exp_diff [of E 1023] assms(3) by (simp add: bias_def)
  have "unpack754 w 64 11 = times_pow2 (1 + of_nat m / 2 ^ 52) (int E - bias 11)
      * (if (if neg then 1 else 0 :: 64 word) \<noteq> 0 then - 1 else 1)"
    by (rule unpack754_gen [OF nz g1 g2 g3 g4 g5])
  then show ?thesis
    by (simp add: unpack754_64_def w_def normal_value_def)
qed

lemma pack754_32_normal:
  assumes "m < 2 ^ 23"
  shows "pack754_32 (normal_value 23 8 neg m E) = Inr (ieee_bits 23 8 neg m E)"
  using pack754_normal [of m 32 8 neg E] assms
  by (simp add: pack754_32_def ieee_bits_def)

lemma pack754_64_normal:
  assumes "m < 2 ^ 52"
  shows "pack754_64 (normal_value 52 11 neg m E) = Inr (ieee_bits 52 11 neg m E)"
  using pack754_normal [of m 64 11 neg E] assms
  by (simp add: pack754_64_def ieee_bits_def)


section \<open>Properties of the dynamic message container\<close>










lemma put_noop:
  "name = None \<or> value = None \<or> t < ENUMERATION_TYPE \<or> t > STRING_TYPE \<or> fields_info m = None \<Longrightarrow>
     dynmessage_put_field_and_value fuel m name t value = Inr m"
  by (auto simp add: dynmessage_put_field_and_value_def dynmessage_initialized_def)



















section \<open>Claims about the container\<close>












section \<open>Claims about the framed codec\<close>

lemma get_fields_empty:
  "field_count m \<le> 0 \<Longrightarrow> dynmessage_get_fields m = Inr \<lparr>fl_list = [], list_length = 0\<rparr>"
  by (simp add: dynmessage_get_fields_def)

text \<open>
  Claim C8.  For a message with zero fields the computed length is 0, which is at most
  \<open>DYN_MSG_MIN_LEN\<close> = 32, and \<open>dynmessage_serialize_bin\<close> returns the carrier as it
  received it: no buffer is allocated and \<open>ser_data_len\<close> keeps the value the caller
  gave it.
\<close>

theorem empty_message_emits_nothing:
  assumes "field_count m = 0"
  shows "\<exists>l. calc_dynmessage_serialized_len m = Inr l \<and> l \<le> DYN_MSG_MIN_LEN \<and>
     dynmessage_serialize_bin fresh m serdi = Inr serdi"
  using assms
  by (simp add: calc_dynmessage_serialized_len_def dynmessage_serialize_bin_def ebind_def
      get_fields_empty)

theorem empty_message_emits_nothing_witness:
  "\<exists>l. calc_dynmessage_serialized_len (dynmessage_init example_handle (Some ''empty'')) = Inr l \<and>
     l \<le> DYN_MSG_MIN_LEN \<and>
     dynmessage_serialize_bin fresh_AA (dynmessage_init example_handle (Some ''empty'')) serdi0 =
       Inr \<lparr>ser_data = None, ser_data_len = 0\<rparr>"
  using empty_message_emits_nothing
    [of "dynmessage_init example_handle (Some ''empty'')" fresh_AA serdi0]
  by (simp add: dynmessage_init_def serdi0_def)

lemma msg_int16_put:
  "dynmessage_put_field_and_value 2 msg0 (Some ''reading'') INT16_TYPE (Some (Int_obj 7)) = Inr msg_int16"
  by code_simp

lemma calc_len_int16: "calc_dynmessage_serialized_len msg_int16 = Inr 46"
  by code_simp

lemma spec_len_int16: "spec_serialized_len msg_int16 = 44"
  by code_simp





















section \<open>Frames that the codec mishandles\<close>

lemma round_trip_msg_eus:
  "ebind (dynmessage_serialize_bin fresh_AA msg_eus serdi0)
     (\<lambda>s. dynmessage_deserialize_bin 2 example_handle (ser_data s) (ser_data_len s))
   = Inr (Some msg_eus)"
  by code_simp

text \<open>
  Claim C2.  The frame round trip fails at a message with an \<open>INT64_TYPE\<close> field
  followed by a string: the size table gives the field four value bytes, the sub-frame
  of the string overwrites the other four, two messages with different values serialize
  to the same 72 bytes, and the decoder reads eight bytes from the value buffer of four.
\<close>

theorem int64_field_breaks_round_trip:
  "dynmessage_serialize_bin fresh_AA msg_int64 serdi0
     = Inr \<lparr>ser_data = Some frame_int64, ser_data_len = 72\<rparr> \<and>
   dynmessage_serialize_bin fresh_AA msg_int64_b serdi0
     = Inr \<lparr>ser_data = Some frame_int64, ser_data_len = 72\<rparr> \<and>
   map f_value (stored_fields msg_int64)
     = [Some (Int64_value 0x1122334455667788), Some (String_value ''abc'')] \<and>
   map f_value (stored_fields msg_int64_b)
     = [Some (Int64_value 0x1122334400000000), Some (String_value ''abc'')] \<and>
   dynmessage_deserialize_bin 2 example_handle (Some frame_int64) 72 = Inl Out_of_bounds_read"
  by code_simp

text \<open>
  Claim C3.  An input of four bytes that holds the start identifier alone passes
  \<open>verify_full_dynmessage\<close>: \<open>get_encoded_dynmessage_length\<close> returns 0 for an input
  shorter than eight bytes, and 0 is at most \<open>data_len\<close>.  The decoder does not return the
  null pointer; it reads the name length at the offsets 8 to 11 of the four bytes.
\<close>

theorem short_frame_passes_verification:
  "verify_full_dynmessage (Some short_frame) 4 = Inr True \<and>
   dynmessage_deserialize_bin 2 example_handle (Some short_frame) 4 = Inl Out_of_bounds_read"
  by code_simp

text \<open>
  A sub-frame whose type has no case in the \<open>switch\<close> of the decoder is consumed and
  leaves the message as it is.
\<close>

lemma deserialize_field_no_case:
  assumes r: "deserialize_field fuel d (m, i) = Inr (m', i')"
    and k: "read_int32 d (i + 4) = Inr k"
    and t: "read_int32 d (i + 4 + 4 + word_of_int k) = Inr t"
    and l: "read_int32 d (i + 4 + 4 + word_of_int k + 4) = Inr l"
    and nc: "t < ENUMERATION_TYPE \<or> t = INT8_TYPE \<or> t = UNSIGNED_INT8_TYPE \<or> STRING_TYPE < t"
  shows "m' = m \<and> i' = i + 4 + 4 + word_of_int k + 4 + 4 + word_of_int l"
proof -
  have pf: "dynmessage_put_field fuel m (Some n) t = Inr m" for n
    unfolding dynmessage_put_field_def by (rule put_noop) simp
  have pd: "put_decoded fuel m n t b l = Inr m" for n b
    using nc unfolding put_decoded_def by auto
  show ?thesis
    using r k t l
    unfolding deserialize_field_def
    by (auto simp add: ebind_def Let_def pf pd split: sum.splits if_splits)
qed

text \<open>
  Claim C7.  The macro \<open>dynmessage_put_field\<close> passes a null value, and
  \<open>dynmessage_put_field_and_value\<close> returns at its null check: the call registers
  nothing.  The decoder of a sub-frame of type \<open>INT8_TYPE\<close> has no case for the type in
  its \<open>switch\<close>, so the decoded message has no field and \<open>field_count\<close> 0.
\<close>

theorem put_field_registers_nothing:
  "dynmessage_put_field fuel message name type = Inr message \<and>
   dynmessage_deserialize_bin 2 example_handle (Some frame_int8) 37 = Inr (Some msg0) \<and>
   field_count msg0 = 0 \<and> stored_fields msg0 = []"
proof -
  have "dynmessage_put_field fuel message name type = Inr message"
    unfolding dynmessage_put_field_def by (rule put_noop) simp
  moreover have "dynmessage_deserialize_bin 2 example_handle (Some frame_int8) 37 = Inr (Some msg0)"
    by code_simp
  moreover have "field_count msg0 = 0" by code_simp
  moreover have "stored_fields msg0 = []" by code_simp
  ultimately show ?thesis by simp
qed

section \<open>Claims about the float conversion\<close>

lemma ulp_pos: "0 < ulp sb eb E"
  unfolding ulp_def by (rule times_pow2_pos) simp

lemma pack754_pow2:
  "pack754 (times_pow2 1 e) bits eb =
     Inr (push_bit (bits - 1) 0 OR push_bit (bits - eb - 1) (word_of_int (e + (2 ^ (eb - 1) - 1)))
          OR word_of_int 0)"
proof -
  define x where "x = times_pow2 1 e"
  have xpos: "0 < x" unfolding x_def by (rule times_pow2_pos) simp
  have f0: "x \<noteq> 0" and fn: "(x < 0) = False" and fa: "(if x < 0 then - x else x) = x"
    using xpos by auto
  have "\<exists>a b. norm_down (times_pow2 1 e) 0 = (a, b) \<and> norm_up a b = Inr (1, e)"
    by (rule normalize_obtain) simp_all
  then obtain a b where ab: "norm_down x 0 = (a, b)" "norm_up a b = Inr (1, e)"
    unfolding x_def by blast
  have sg: "\<lfloor>(1 - 1) * (2 ^ (bits - eb - 1) + 1 / 2 :: rat)\<rfloor> = 0" by simp
  have "pack754 x bits eb =
     Inr (push_bit (bits - 1) (if False then 1 else 0)
          OR push_bit (bits - eb - 1) (word_of_int (e + (2 ^ (eb - 1) - 1)))
          OR word_of_int 0)"
    by (rule pack754_gen [OF f0 fn _ ab(2) sg]) (simp only: fa ab(1))
  then show ?thesis by (simp only: x_def if_False)
qed

text \<open>
  Claim C9, as amended.  For every normal value of binary32 and of binary64 (any sign,
  any fraction, exponent field from 1 to 254, respectively 2046) \<open>pack754\<close> returns the
  IEEE-754 bit pattern of the value and \<open>unpack754\<close> returns from it exactly the value
  that was packed, which is in particular within one unit in the last place; zero is
  packed to the all-zero pattern and unpacked from it.
\<close>

theorem float_pack_unpack_round_trip:
  "(m < 2 ^ 23 \<and> 1 \<le> E \<and> E \<le> 254 \<longrightarrow>
      pack754_32 (normal_value 23 8 neg m E) = Inr (ieee_bits 23 8 neg m E) \<and>
      unpack754_32 (ieee_bits 23 8 neg m E) = normal_value 23 8 neg m E \<and>
      \<bar>unpack754_32 (ieee_bits 23 8 neg m E) - normal_value 23 8 neg m E\<bar> \<le> ulp 23 8 E) \<and>
   (m' < 2 ^ 52 \<and> 1 \<le> E' \<and> E' \<le> 2046 \<longrightarrow>
      pack754_64 (normal_value 52 11 neg' m' E') = Inr (ieee_bits 52 11 neg' m' E') \<and>
      unpack754_64 (ieee_bits 52 11 neg' m' E') = normal_value 52 11 neg' m' E' \<and>
      \<bar>unpack754_64 (ieee_bits 52 11 neg' m' E') - normal_value 52 11 neg' m' E'\<bar>
        \<le> ulp 52 11 E') \<and>
   pack754_32 0 = Inr 0 \<and> unpack754_32 0 = 0 \<and> pack754_64 0 = Inr 0 \<and> unpack754_64 0 = 0"
proof (intro conjI impI)
  assume a: "m < 2 ^ 23 \<and> 1 \<le> E \<and> E \<le> 254"
  then show "pack754_32 (normal_value 23 8 neg m E) = Inr (ieee_bits 23 8 neg m E)"
    by (intro pack754_32_normal) simp
  from a show u: "unpack754_32 (ieee_bits 23 8 neg m E) = normal_value 23 8 neg m E"
    by (intro unpack754_32_normal) simp_all
  show "\<bar>unpack754_32 (ieee_bits 23 8 neg m E) - normal_value 23 8 neg m E\<bar> \<le> ulp 23 8 E"
    using ulp_pos [of 23 8 E] by (simp add: u)
next
  assume a: "m' < 2 ^ 52 \<and> 1 \<le> E' \<and> E' \<le> 2046"
  then show "pack754_64 (normal_value 52 11 neg' m' E') = Inr (ieee_bits 52 11 neg' m' E')"
    by (intro pack754_64_normal) simp
  from a show u: "unpack754_64 (ieee_bits 52 11 neg' m' E') = normal_value 52 11 neg' m' E'"
    by (intro unpack754_64_normal) simp_all
  show "\<bar>unpack754_64 (ieee_bits 52 11 neg' m' E') - normal_value 52 11 neg' m' E'\<bar>
      \<le> ulp 52 11 E'"
    using ulp_pos [of 52 11 E'] by (simp add: u)
next
  show "pack754_32 0 = Inr 0" by (simp add: pack754_32_def pack754_def)
  show "unpack754_32 0 = 0" by (simp add: unpack754_32_def unpack754_def)
  show "pack754_64 0 = Inr 0" by (simp add: pack754_64_def pack754_def)
  show "unpack754_64 0 = 0" by (simp add: unpack754_64_def unpack754_def)
qed

text \<open>
  The amended claim C9 at the two values of the specification's example: \<open>1.25\<close> is
  the binary32 value with the fraction \<open>2 ^ 21\<close> and the exponent field 127, and
  \<open>2.375\<close> is the binary64 value with the fraction \<open>3 * 2 ^ 48\<close> and the exponent field
  1024.
\<close>

theorem float_pack_unpack_round_trip_witness:
  "normal_value 23 8 False 2097152 127 = 5 / 4 \<and>
   pack754_32 (5 / 4) = Inr 0x3FA00000 \<and> unpack754_32 0x3FA00000 = 5 / 4 \<and>
   normal_value 52 11 False 844424930131968 1024 = 19 / 8 \<and>
   pack754_64 (19 / 8) = Inr 0x4003000000000000 \<and> unpack754_64 0x4003000000000000 = 19 / 8"
proof -
  have v1: "normal_value 23 8 False 2097152 127 = 5 / 4"
    by (simp add: normal_value_def times_pow2_def bias_def)
  have v2: "normal_value 52 11 False 844424930131968 1024 = 19 / 8"
    by (simp add: normal_value_def times_pow2_def bias_def)
  have b1: "ieee_bits 23 8 False 2097152 127 = 0x3FA00000"
    by (simp add: ieee_bits_def)
  have b2: "ieee_bits 52 11 False 844424930131968 1024 = 0x4003000000000000"
    by (simp add: ieee_bits_def)
  have h1: "(2097152::nat) < 2 ^ 23 \<and> 1 \<le> (127::nat) \<and> (127::nat) \<le> 254" by simp
  have h2: "(844424930131968::nat) < 2 ^ 52 \<and> 1 \<le> (1024::nat) \<and> (1024::nat) \<le> 2046" by simp
  note t = float_pack_unpack_round_trip [of 2097152 127 False 844424930131968 1024 False]
  note a1 = t [THEN conjunct1, THEN mp, OF h1]
  note a2 = t [THEN conjunct2, THEN conjunct1, THEN mp, OF h2]
  have r1: "pack754_32 (5 / 4) = Inr 0x3FA00000"
    using a1 [THEN conjunct1] unfolding v1 b1 .
  have r2: "unpack754_32 0x3FA00000 = 5 / 4"
    using a1 [THEN conjunct2, THEN conjunct1] unfolding v1 b1 .
  have r3: "pack754_64 (19 / 8) = Inr 0x4003000000000000"
    using a2 [THEN conjunct1] unfolding v2 b2 .
  have r4: "unpack754_64 0x4003000000000000 = 19 / 8"
    using a2 [THEN conjunct2, THEN conjunct1] unfolding v2 b2 .
  show ?thesis by (intro conjI) (rule v1 r1 r2 v2 r3 r4)+
qed

text \<open>
  Claim C9 as the specification states it fails at the subnormal values of binary32:
  \<open>2 ^ -127\<close> (fraction \<open>2 ^ 22\<close>) is packed to the bits of zero and comes back as 0, and
  \<open>2 ^ -128\<close> (fraction \<open>2 ^ 21\<close>) is packed with the exponent field \<open>-1\<close>, whose low 32
  bits \<open>FF 80 00 00\<close> come back as \<open>- 2 ^ 128\<close>; the unit in the last place of a subnormal
  value is \<open>2 ^ -149\<close>.
\<close>

theorem float_subnormal_counterexample:
  "subnormal_value 23 8 False (2 ^ 22) = 1 / 2 ^ 127 \<and>
   pack754_32 (subnormal_value 23 8 False (2 ^ 22)) = Inr 0 \<and>
   unpack754_32 0 = 0 \<and>
   ulp 23 8 0 < \<bar>0 - subnormal_value 23 8 False (2 ^ 22)\<bar> \<and>
   subnormal_value 23 8 False (2 ^ 21) = 1 / 2 ^ 128 \<and>
   pack754_32 (subnormal_value 23 8 False (2 ^ 21)) = Inr 0xFFFFFFFFFF800000 \<and>
   unpack754_32 0xFFFFFFFFFF800000 = - (2 ^ 128) \<and>
   unpack754_32 0xFF800000 = - (2 ^ 128) \<and>
   ulp 23 8 0 < \<bar>- (2 ^ 128) - subnormal_value 23 8 False (2 ^ 21)\<bar>"
proof -
  have s1: "subnormal_value 23 8 False (2 ^ 22) = times_pow2 1 (- 127)"
    by (simp add: subnormal_value_def times_pow2_def bias_def)
  have s2: "subnormal_value 23 8 False (2 ^ 21) = times_pow2 1 (- 128)"
    by (simp add: subnormal_value_def times_pow2_def bias_def)
  have v1: "times_pow2 1 (- 127) = 1 / 2 ^ 127" by (simp add: times_pow2_def)
  have v2: "times_pow2 1 (- 128) = 1 / 2 ^ 128" by (simp add: times_pow2_def)
  have w1: "(push_bit (32 - 1) 0 OR push_bit (32 - 8 - 1) (word_of_int (- 127 + (2 ^ (8 - 1) - 1)))
      OR word_of_int 0 :: 64 word) = 0"
    by simp
  have w2: "(push_bit (32 - 1) 0 OR push_bit (32 - 8 - 1) (word_of_int (- 128 + (2 ^ (8 - 1) - 1)))
      OR word_of_int 0 :: 64 word) = 0xFFFFFFFFFF800000"
    by code_simp
  have p1: "pack754_32 (times_pow2 1 (- 127)) = Inr 0"
    unfolding pack754_32_def pack754_pow2 w1 by (rule refl)
  have p2: "pack754_32 (times_pow2 1 (- 128)) = Inr 0xFFFFFFFFFF800000"
    unfolding pack754_32_def pack754_pow2 w2 by (rule refl)
  have u0: "unpack754_32 0 = 0" by (simp add: unpack754_32_def unpack754_def)
  have u1: "unpack754_32 0xFFFFFFFFFF800000 = - (2 ^ 128)" by code_simp
  have u2: "unpack754_32 0xFF800000 = - (2 ^ 128)" by code_simp
  have l: "ulp 23 8 0 = 1 / 2 ^ 149" by (simp add: ulp_def times_pow2_def bias_def)
  have c1: "ulp 23 8 0 < \<bar>0 - times_pow2 1 (- 127)\<bar>" unfolding l v1 by simp
  have c2: "ulp 23 8 0 < \<bar>- (2 ^ 128) - times_pow2 1 (- 128)\<bar>" unfolding l v2 by simp
  show ?thesis
    unfolding s1 s2 by (intro conjI) (rule v1 v2 p1 p2 u0 u1 u2 c1 c2)+
qed

end
